theory Spec2Isabelle
  imports Complex_Main
begin

section \<open>Calendar dates\<close>

text \<open>
  A Python \<open>datetime.date\<close> is modelled by its proleptic Gregorian ordinal
  (\<open>date.toordinal()\<close>: 0001-01-01 is day 1), so that \<open>d - timedelta(days=n)\<close> is
  \<open>d - n\<close> and the comparisons of dates are the comparisons of integers.  Python's
  dates are confined to the years 1 to 9999 and arithmetic leaving that range raises
  OverflowError; the model has no such bound, so it describes the program on the dates
  whose neighbours used below still lie in that range.

  The functions of this section follow the pure-Python \<open>datetime\<close> module of the standard
  library (\<open>_is_leap\<close>, \<open>_days_before_year\<close>, \<open>_days_before_month\<close>, \<open>_ymd2ord\<close>,
  \<open>_ord2ymd\<close>, \<open>date.weekday\<close>).
\<close>

type_synonym date = int

definition is_leap :: "int \<Rightarrow> bool" where
  "is_leap year = (year mod 4 = 0 \<and> (year mod 100 \<noteq> 0 \<or> year mod 400 = 0))"

definition days_before_year :: "int \<Rightarrow> int" where
  "days_before_year year =
     (let y = year - 1 in y * 365 + y div 4 - y div 100 + y div 400)"

definition DAYS_IN_MONTH :: "int list" where
  "DAYS_IN_MONTH = [-1, 31, 28, 31, 30, 31, 30, 31, 31, 30, 31, 30, 31]"

definition DAYS_BEFORE_MONTH :: "int list" where
  "DAYS_BEFORE_MONTH = [-1, 0, 31, 59, 90, 120, 151, 181, 212, 243, 273, 304, 334]"

definition days_before_month :: "int \<Rightarrow> nat \<Rightarrow> int" where
  "days_before_month year month =
     DAYS_BEFORE_MONTH ! month + (if month > 2 \<and> is_leap year then 1 else 0)"

definition ymd2ord :: "int \<Rightarrow> nat \<Rightarrow> int \<Rightarrow> date" where
  "ymd2ord year month day = days_before_year year + days_before_month year month + day"

definition ord2ymd :: "date \<Rightarrow> int \<times> nat \<times> int" where
  "ord2ymd ordinal =
     (let n = ordinal - 1;
          n400 = n div 146097; n = n mod 146097;
          year = n400 * 400 + 1;
          n100 = n div 36524; n = n mod 36524;
          n4 = n div 1461; n = n mod 1461;
          n1 = n div 365; n = n mod 365;
          year = year + n100 * 100 + n4 * 4 + n1
      in if n1 = 4 \<or> n100 = 4 then (year - 1, 12, 31)
         else
           let leapyear = (n1 = 3 \<and> (n4 \<noteq> 24 \<or> n100 = 3));
               month = nat ((n + 50) div 32);
               preceding = DAYS_BEFORE_MONTH ! month + (if month > 2 \<and> leapyear then 1 else 0)
           in if preceding > n
              then let month = month - 1;
                       preceding = preceding
                         - (DAYS_IN_MONTH ! month + (if month = 2 \<and> leapyear then 1 else 0))
                   in (year, month, n - preceding + 1)
              else (year, month, n - preceding + 1))"

text \<open>\<open>date.weekday()\<close>: Monday is 0 and Sunday is 6.\<close>

definition weekday :: "date \<Rightarrow> int" where
  "weekday d = (d + 6) mod 7"

section \<open>Rows of the tables\<close>

text \<open>
  The SQLAlchemy models of \<open>models.py\<close>, with the columns that the modelled services
  read or write (time stamps, password hashes and roles are left out).  The field names
  carry a prefix because several tables share the column names \<open>id\<close>, \<open>user_id\<close> and
  \<open>is_deleted\<close>.
\<close>

record habit_log =
  l_id :: int
  l_habit_id :: int
  l_date :: date
  l_completed :: bool

section \<open>The streak calculator\<close>

text \<open>
  \<open>_calculate_streak(logs, today)\<close> of \<open>services.py\<close>.  The loop is the recursion
  \<open>streak_loop\<close> over the remaining logs, carrying the three local variables
  \<open>streak\<close>, \<open>is_logged_today\<close> and \<open>check_date\<close>; \<open>break\<close> returns the current values,
  and a log later than \<open>check_date\<close> that is not today's falls through all three tests.
\<close>

fun streak_loop :: "date \<Rightarrow> habit_log list \<Rightarrow> nat \<Rightarrow> bool \<Rightarrow> date \<Rightarrow> nat \<times> bool" where
  "streak_loop today [] streak is_logged_today check_date = (streak, is_logged_today)"
| "streak_loop today (lg # logs) streak is_logged_today check_date =
     (if l_date lg = today then streak_loop today logs (streak + 1) True (today - 1)
      else if l_date lg = check_date
        then streak_loop today logs (streak + 1) is_logged_today (check_date - 1)
      else if l_date lg < check_date then (streak, is_logged_today)
      else streak_loop today logs streak is_logged_today check_date)"

definition calculate_streak :: "habit_log list \<Rightarrow> date \<Rightarrow> nat \<times> bool" where
  "calculate_streak logs today = streak_loop today logs 0 False today"

text \<open>Sorted newest first, as \<open>order_by(HabitLog.date.desc())\<close> delivers the logs.\<close>

definition sorted_desc :: "habit_log list \<Rightarrow> bool" where
  "sorted_desc logs = sorted_wrt (\<lambda>a b. l_date a \<ge> l_date b) logs"

section \<open>Python values used by the services\<close>

text \<open>
  The exceptions that the modelled code can raise or catch: a division by zero; a
  failure of the database in a query, a flush or a commit; the refusal of a session to
  run a statement after such a failure; and any other exception, as a generator put in
  for a test raises it.
\<close>

datatype py_error =
    ZeroDivisionError
  | GatewayError string
  | PendingRollbackError
  | RuntimeError string

subsection \<open>Floating point\<close>

text \<open>
  A finite Python \<open>float\<close> (IEEE 754 binary64) is modelled by the rational number it
  denotes.  Every arithmetic operation computes the exact rational result and rounds it
  with \<open>fl\<close> to the nearest number with a 53-bit significand, ties to even, which is
  what binary64 arithmetic does for every result whose magnitude lies in the range of
  the normal binary64 numbers (the exponent is not bounded in the model; the rates
  computed here are quotients of row counts).
\<close>

definition round_half_even :: "rat \<Rightarrow> int" where
  "round_half_even x =
     (let f = \<lfloor>x\<rfloor>; r = x - of_int f
      in if r < 1 / 2 then f else if r > 1 / 2 then f + 1
         else if even f then f else f + 1)"

text \<open>\<open>n.bit_length()\<close> on a Python int that is not negative.\<close>

function bit_length :: "int \<Rightarrow> int" where
  "bit_length n = (if n \<le> 0 then 0 else 1 + bit_length (n div 2))"
  by pat_completeness auto
termination
  by (relation "measure nat") auto

declare bit_length.simps [simp del]

text \<open>\<open>ilog2 x\<close> is the integer part of the binary logarithm of a positive rational.\<close>

definition ilog2 :: "rat \<Rightarrow> int" where
  "ilog2 x =
     (let (a, b) = quotient_of x;
          d = bit_length a - bit_length b
      in if 2 powi d \<le> x then d else d - 1)"

definition fl :: "rat \<Rightarrow> rat" where
  "fl x =
     (if x = 0 then 0
      else let q = 2 powi (ilog2 \<bar>x\<bar> - 52)
           in sgn x * of_int (round_half_even (\<bar>x\<bar> / q)) * q)"

text \<open>\<open>a / b\<close> on two Python ints: the correctly rounded quotient, or ZeroDivisionError.\<close>

definition py_truediv :: "int \<Rightarrow> int \<Rightarrow> py_error + rat" where
  "py_truediv a b = (if b = 0 then Inl ZeroDivisionError else Inr (fl (of_int a / of_int b)))"

text \<open>\<open>x * y\<close> and \<open>x + y\<close> on floats; an int operand is converted with \<open>fl (of_int n)\<close>.\<close>

definition fmul :: "rat \<Rightarrow> rat \<Rightarrow> rat" where
  "fmul x y = fl (x * y)"

definition fadd :: "rat \<Rightarrow> rat \<Rightarrow> rat" where
  "fadd x y = fl (x + y)"

text \<open>\<open>round(x)\<close> on a float gives an int, rounding the exact value half to even.\<close>

definition py_round :: "rat \<Rightarrow> int" where
  "py_round x = round_half_even x"

text \<open>
  \<open>round(x, 1)\<close> on a float: the exact value is rounded half to even to one decimal and
  the decimal is converted back to the nearest float.
\<close>

definition py_round1 :: "rat \<Rightarrow> rat" where
  "py_round1 x = fl (of_int (round_half_even (x * 10)) / 10)"

text \<open>The literals \<open>0.6\<close> and \<open>0.4\<close>.\<close>

definition lit_0_6 :: rat where
  "lit_0_6 = fl (6 / 10)"

definition lit_0_4 :: rat where
  "lit_0_4 = fl (4 / 10)"

subsection \<open>Strings\<close>

text \<open>
  A Python \<open>str\<close> is modelled by its UTF-8 bytes.  \<open>str_int\<close> is \<open>str(n)\<close> on an int.
\<close>

function str_digits :: "int \<Rightarrow> string" where
  "str_digits n =
     (if n < 10 then [''0123456789'' ! nat n]
      else str_digits (n div 10) @ [''0123456789'' ! nat (n mod 10)])"
  by pat_completeness auto
termination
  by (relation "measure nat") auto

declare str_digits.simps [simp del]

definition str_int :: "int \<Rightarrow> string" where
  "str_int i = (if i < 0 then CHR ''-'' # str_digits (- i) else str_digits i)"

definition em_dash :: string where
  "em_dash = [CHR 0xE2, CHR 0x80, CHR 0x94]"

text \<open>
  \<open>d.strftime('%b %d')\<close> and \<open>d.strftime('%b %d, %Y')\<close> in the C locale: the abbreviated
  month name, the day of the month with two digits, the year in decimal.
\<close>

definition MONTH_ABBR :: "string list" where
  "MONTH_ABBR = ['''', ''Jan'', ''Feb'', ''Mar'', ''Apr'', ''May'', ''Jun'',
                 ''Jul'', ''Aug'', ''Sep'', ''Oct'', ''Nov'', ''Dec'']"

definition two_digits :: "int \<Rightarrow> string" where
  "two_digits d = (if d < 10 then CHR ''0'' # str_int d else str_int d)"

definition strftime_b_d :: "date \<Rightarrow> string" where
  "strftime_b_d d = (case ord2ymd d of (y, m, dd) \<Rightarrow> MONTH_ABBR ! m @ '' '' @ two_digits dd)"

definition strftime_b_d_Y :: "date \<Rightarrow> string" where
  "strftime_b_d_Y d =
     (case ord2ymd d of (y, m, dd) \<Rightarrow>
        MONTH_ABBR ! m @ '' '' @ two_digits dd @ '', '' @ str_int y)"

section \<open>The database\<close>

record user =
  u_id :: int
  u_name :: string
  u_email :: string

record task =
  t_id :: int
  t_title :: string
  t_status :: string
  t_is_deleted :: bool
  t_user_id :: int

record habit =
  h_id :: int
  h_name :: string
  h_target_type :: string
  h_is_deleted :: bool
  h_user_id :: int

record weekly_report =
  r_id :: int
  r_user_id :: int
  r_week_start :: date
  r_week_end :: date
  r_report :: string
  r_score :: int

text \<open>
  The session \<open>db\<close>: each table is the list of its rows in the order in which a query
  without \<open>order_by\<close> returns them.  \<open>.first()\<close> is \<open>find\<close>; assigning to a
  column of the row that \<open>.first()\<close> returned and committing is \<open>update_first\<close> with the
  same filter; \<open>db.add\<close> with \<open>db.commit\<close> appends the row with the next free id.
\<close>

record db =
  users :: "user list"
  tasks :: "task list"
  habits :: "habit list"
  habit_logs :: "habit_log list"
  weekly_reports :: "weekly_report list"

fun update_first :: "('a \<Rightarrow> bool) \<Rightarrow> ('a \<Rightarrow> 'a) \<Rightarrow> 'a list \<Rightarrow> 'a list" where
  "update_first P f [] = []"
| "update_first P f (x # xs) = (if P x then f x # xs else x # update_first P f xs)"

definition next_id :: "int list \<Rightarrow> int" where
  "next_id ids = foldr max ids 0 + 1"

subsection \<open>The queries of the services\<close>

text \<open>\<open>db.query(Task).filter(Task.user_id == user_id, Task.is_deleted == False).all()\<close>\<close>

definition active_tasks :: "db \<Rightarrow> int \<Rightarrow> task list" where
  "active_tasks d user_id = filter (\<lambda>t. t_user_id t = user_id \<and> \<not> t_is_deleted t) (tasks d)"

text \<open>\<open>db.query(Habit).filter(Habit.user_id == user_id, Habit.is_deleted == False).all()\<close>\<close>

definition active_habits :: "db \<Rightarrow> int \<Rightarrow> habit list" where
  "active_habits d user_id = filter (\<lambda>h. h_user_id h = user_id \<and> \<not> h_is_deleted h) (habits d)"

text \<open>
  The filter of \<open>edit_habit\<close>, \<open>delete_habit\<close> and \<open>log_habit\<close>:
  \<open>Habit.id == habit_id, Habit.user_id == user_id, Habit.is_deleted == False\<close>.
\<close>

definition owned_habit :: "int \<Rightarrow> int \<Rightarrow> habit \<Rightarrow> bool" where
  "owned_habit habit_id user_id h =
     (h_id h = habit_id \<and> h_user_id h = user_id \<and> \<not> h_is_deleted h)"

text \<open>
  \<open>db.query(HabitLog).filter(HabitLog.habit_id == habit.id, HabitLog.completed == True)
  .order_by(HabitLog.date.desc()).all()\<close>.  Logs of the same date, whose order the query
  leaves open, stay in the order of the table.
\<close>

definition completed_logs :: "db \<Rightarrow> int \<Rightarrow> habit_log list" where
  "completed_logs d habit_id =
     sort_key (\<lambda>l. - l_date l)
       (filter (\<lambda>l. l_habit_id l = habit_id \<and> l_completed l) (habit_logs d))"

text \<open>
  \<open>db.query(HabitLog).join(Habit).filter(Habit.user_id == user_id,
  Habit.is_deleted == False, HabitLog.completed == True, ...).count()\<close>: the number of
  pairs of a log and a habit with \<open>HabitLog.habit_id == Habit.id\<close> that pass the filter;
  \<open>in_window\<close> is the condition on \<open>HabitLog.date\<close>.
\<close>

definition count_joined_logs :: "db \<Rightarrow> int \<Rightarrow> (date \<Rightarrow> bool) \<Rightarrow> int" where
  "count_joined_logs d user_id in_window =
     int (length (concat (map (\<lambda>l.
        filter (\<lambda>h. h_id h = l_habit_id l \<and> h_user_id h = user_id \<and> \<not> h_is_deleted h
                    \<and> l_completed l \<and> in_window (l_date l)) (habits d)) (habit_logs d))))"

section \<open>Habit services\<close>

text \<open>The dict that \<open>create_habit\<close> and \<open>edit_habit\<close> return (schema \<open>HabitResponse\<close>).\<close>

record habit_response =
  hr_id :: int
  hr_name :: string
  hr_target_type :: string
  hr_user_id :: int
  current_streak :: nat
  is_logged_today :: bool

text \<open>\<open>edit_habit(db, habit_id, user_id, new_name)\<close>; \<open>None\<close> when no habit is found.\<close>

definition edit_habit :: "db \<Rightarrow> int \<Rightarrow> int \<Rightarrow> string \<Rightarrow> habit_response option \<times> db" where
  "edit_habit d habit_id user_id new_name =
     (case find (owned_habit habit_id user_id) (habits d) of
        None \<Rightarrow> (None, d)
      | Some habit \<Rightarrow>
          let habit = habit\<lparr>h_name := new_name\<rparr>;
              d = d\<lparr>habits := update_first (owned_habit habit_id user_id)
                                (\<lambda>h. h\<lparr>h_name := new_name\<rparr>) (habits d)\<rparr>
          in (Some \<lparr>hr_id = h_id habit, hr_name = h_name habit,
                     hr_target_type = h_target_type habit, hr_user_id = h_user_id habit,
                     current_streak = 0, is_logged_today = False\<rparr>, d))"

text \<open>What \<open>get_habits\<close> puts into the same two fields for a habit.\<close>

definition listed_streak :: "db \<Rightarrow> date \<Rightarrow> int \<Rightarrow> nat \<times> bool" where
  "listed_streak d today habit_id = calculate_streak (completed_logs d habit_id) today"

text \<open>
  \<open>log_habit(db, habit_id, log_date, completed, user_id)\<close>: \<open>None\<close> when the habit is not
  the user's; otherwise the log of that habit and date, updated or newly inserted.
\<close>

definition same_day_log :: "int \<Rightarrow> date \<Rightarrow> habit_log \<Rightarrow> bool" where
  "same_day_log habit_id log_date l = (l_habit_id l = habit_id \<and> l_date l = log_date)"

definition log_habit :: "db \<Rightarrow> int \<Rightarrow> date \<Rightarrow> bool \<Rightarrow> int \<Rightarrow> habit_log option \<times> db" where
  "log_habit d habit_id log_date completed user_id =
     (case find (owned_habit habit_id user_id) (habits d) of
        None \<Rightarrow> (None, d)
      | Some habit \<Rightarrow>
          (case find (same_day_log habit_id log_date) (habit_logs d) of
             Some existing \<Rightarrow>
               (Some (existing\<lparr>l_completed := completed\<rparr>),
                d\<lparr>habit_logs := update_first (same_day_log habit_id log_date)
                                   (\<lambda>l. l\<lparr>l_completed := completed\<rparr>) (habit_logs d)\<rparr>)
           | None \<Rightarrow>
               let new_log = \<lparr>l_id = next_id (map l_id (habit_logs d)), l_habit_id = habit_id,
                              l_date = log_date, l_completed = completed\<rparr>
               in (Some new_log, d\<lparr>habit_logs := habit_logs d @ [new_log]\<rparr>)))"

text \<open>
  A sequence of \<open>log_habit\<close> calls, each given as
  \<open>(habit_id, log_date, completed, user_id)\<close>, run one after the other.
\<close>

fun log_habit_calls :: "db \<Rightarrow> (int \<times> date \<times> bool \<times> int) list \<Rightarrow> db" where
  "log_habit_calls d [] = d"
| "log_habit_calls d ((habit_id, log_date, completed, user_id) # calls) =
     log_habit_calls (snd (log_habit d habit_id log_date completed user_id)) calls"

text \<open>At most one row of \<open>habit_logs\<close> for each habit and date.\<close>

definition one_log_per_day :: "db \<Rightarrow> bool" where
  "one_log_per_day d = distinct (map (\<lambda>l. (l_habit_id l, l_date l)) (habit_logs d))"

section \<open>Rates and scores\<close>

text \<open>
  The expression \<open>(a / b * 100) if b else 0\<close>, which both the dashboard and the report
  evaluate for tasks and for habits.
\<close>

definition percent_or_zero :: "int \<Rightarrow> int \<Rightarrow> py_error + rat" where
  "percent_or_zero a b =
     (if b \<noteq> 0
      then (case py_truediv a b of
              Inl e \<Rightarrow> Inl e
            | Inr q \<Rightarrow> Inr (fmul q (fl (of_int 100))))
      else Inr 0)"

text \<open>\<open>round((task_rate * 0.6) + (habit_rate * 0.4))\<close> on two floats.\<close>

definition weighted_score :: "rat \<Rightarrow> rat \<Rightarrow> int" where
  "weighted_score task_rate habit_rate =
     py_round (fadd (fmul task_rate lit_0_6) (fmul habit_rate lit_0_4))"

section \<open>The dashboard\<close>

record streak_summary =
  ss_name :: string
  ss_streak :: nat
  ss_logged_today :: bool

record dashboard =
  total_tasks :: int
  completed_tasks :: int
  pending_tasks :: int
  task_completion_rate :: rat
  total_habits :: int
  habits_logged_today :: int
  habit_consistency_rate :: rat
  productivity_score :: int
  current_streaks :: "streak_summary list"

text \<open>The loop over \<open>all_habits\<close> in \<open>get_dashboard\<close>.\<close>

fun dashboard_loop ::
  "db \<Rightarrow> date \<Rightarrow> habit list \<Rightarrow> int \<Rightarrow> streak_summary list \<Rightarrow> int \<times> streak_summary list" where
  "dashboard_loop d today [] logged_today streaks = (logged_today, streaks)"
| "dashboard_loop d today (habit # rest) logged_today streaks =
     (case calculate_streak (completed_logs d (h_id habit)) today of
        (streak, is_today) \<Rightarrow>
          dashboard_loop d today rest
            (if is_today then logged_today + 1 else logged_today)
            (streaks @ [\<lparr>ss_name = h_name habit, ss_streak = streak,
                          ss_logged_today = is_today\<rparr>]))"

text \<open>
  \<open>get_dashboard(db, user_id)\<close>, with the value of \<open>date.today()\<close> as the parameter
  \<open>today\<close>.
\<close>

definition get_dashboard :: "date \<Rightarrow> db \<Rightarrow> int \<Rightarrow> py_error + dashboard" where
  "get_dashboard today d user_id =
     (let week_start = today - weekday today;
          all_tasks = active_tasks d user_id;
          n_tasks = int (length all_tasks);
          n_completed = int (length (filter (\<lambda>t. t_status t = ''completed'') all_tasks));
          n_pending = n_tasks - n_completed
      in case percent_or_zero n_completed n_tasks of
           Inl e \<Rightarrow> Inl e
         | Inr task_percent \<Rightarrow>
             let task_rate = py_round1 task_percent;
                 all_habits = active_habits d user_id;
                 n_habits = int (length all_habits);
                 (logged_today, streaks) = dashboard_loop d today all_habits 0 [];
                 total_possible = (if n_habits \<noteq> 0 then n_habits * 7 else 0);
                 logs_this_week = count_joined_logs d user_id (\<lambda>dt. dt \<ge> week_start)
             in (case percent_or_zero logs_this_week total_possible of
                   Inl e \<Rightarrow> Inl e
                 | Inr habit_percent \<Rightarrow>
                     let habit_rate = py_round1 habit_percent
                     in Inr \<lparr>total_tasks = n_tasks, completed_tasks = n_completed,
                             pending_tasks = n_pending, task_completion_rate = task_rate,
                             total_habits = n_habits, habits_logged_today = logged_today,
                             habit_consistency_rate = habit_rate,
                             productivity_score = weighted_score task_rate habit_rate,
                             current_streaks = streaks\<rparr>))"

section \<open>The weekly report\<close>

text \<open>The dict \<open>{"report": report_text, "score": weekly_score}\<close>.\<close>

record report_result =
  rr_report :: string
  rr_score :: int

text \<open>The window of the report, from \<open>today = date.today()\<close>.\<close>

definition week_end_of :: "date \<Rightarrow> date" where
  "week_end_of today = today - 1"

definition week_start_of :: "date \<Rightarrow> date" where
  "week_start_of today = week_end_of today - 6"

text \<open>\<open>streak, _ = _calculate_streak(logs, today)\<close> for the completed logs of one habit.\<close>

definition habit_streak :: "db \<Rightarrow> date \<Rightarrow> habit \<Rightarrow> nat" where
  "habit_streak d today habit = fst (calculate_streak (completed_logs d (h_id habit)) today)"

text \<open>
  The loop over \<open>all_habits\<close> that keeps \<open>best_habit\<close> (\<open>None\<close> at first) and
  \<open>best_streak\<close>.
\<close>

fun best_streak_loop ::
  "db \<Rightarrow> date \<Rightarrow> habit list \<Rightarrow> string option \<Rightarrow> nat \<Rightarrow> string option \<times> nat" where
  "best_streak_loop d today [] best_habit best_streak = (best_habit, best_streak)"
| "best_streak_loop d today (habit # rest) best_habit best_streak =
     (let streak = habit_streak d today habit
      in if streak > best_streak
         then best_streak_loop d today rest (Some (h_name habit)) streak
         else best_streak_loop d today rest best_habit best_streak)"

text \<open>\<open>user.name or user.email.split('@')[0]\<close>\<close>

definition display_name :: "user \<Rightarrow> string" where
  "display_name u =
     (if u_name u \<noteq> [] then u_name u else takeWhile (\<lambda>c. c \<noteq> CHR ''@'') (u_email u))"

definition opening_line :: "int \<Rightarrow> string \<Rightarrow> string" where
  "opening_line weekly_score name =
     (if weekly_score \<ge> 80
        then ''Outstanding week, '' @ name @ ''! You were firing on all cylinders.''
      else if weekly_score \<ge> 60
        then ''Solid week, '' @ name @ ''! You made real progress.''
      else if weekly_score \<ge> 40
        then ''Decent effort this week, '' @ name @ ''. There'' @ [CHR 0x27]
               @ ''s room to push harder.''
      else ''Tough week, '' @ name @ ''. Every week is a fresh start '' @ em_dash
               @ '' let'' @ [CHR 0x27] @ ''s go.'')"

definition start_a_habit :: string where
  "start_a_habit = ''Start a habit this week to build your first streak.''"

text \<open>
  The conditional expression for \<open>streak_line\<close>; its test \<open>if best_habit\<close> fails for
  \<open>None\<close> and for the empty name.
\<close>

definition streak_line :: "string option \<Rightarrow> nat \<Rightarrow> string" where
  "streak_line best_habit best_streak =
     (case best_habit of
        None \<Rightarrow> start_a_habit
      | Some name \<Rightarrow>
          if name \<noteq> []
          then ''Your best streak is '' @ [CHR 0x27] @ name @ [CHR 0x27] @ '' at ''
                 @ str_int (int best_streak) @ '' days '' @ em_dash @ '' keep it going!''
          else start_a_habit)"

definition newline :: string where
  "newline = [CHR 0x0A]"

definition report_text_of ::
  "string \<Rightarrow> int \<Rightarrow> int \<Rightarrow> int \<Rightarrow> int \<Rightarrow> int \<Rightarrow> int \<Rightarrow> int \<Rightarrow> string \<Rightarrow> date \<Rightarrow> date \<Rightarrow> string" where
  "report_text_of opening completed_this_week n_tasks task_rate logs_this_week possible_logs
       habit_rate weekly_score streak_text week_start week_end =
     opening @ newline @ newline
     @ ''Tasks: You completed '' @ str_int completed_this_week @ '' out of ''
       @ str_int n_tasks @ '' tasks ('' @ str_int task_rate @ ''%).'' @ newline
     @ ''Habits: You logged '' @ str_int logs_this_week @ '' out of ''
       @ str_int possible_logs @ '' possible check-ins ('' @ str_int habit_rate @ ''%).''
       @ newline
     @ ''Weekly Score: '' @ str_int weekly_score @ ''/100'' @ newline @ newline
     @ streak_text @ newline @ newline
     @ ''Week: '' @ strftime_b_d week_start @ '' '' @ em_dash @ '' '' @ strftime_b_d_Y week_end"

text \<open>The filter of the lookup before saving: same user and same \<open>week_start\<close>.\<close>

definition same_week_report :: "int \<Rightarrow> date \<Rightarrow> weekly_report \<Rightarrow> bool" where
  "same_week_report user_id week_start r = (r_user_id r = user_id \<and> r_week_start r = week_start)"

text \<open>
  \<open>generate_weekly_report(db, user)\<close>, with the value of \<open>date.today()\<close> as the
  parameter \<open>today\<close>.  The function is modelled in two parts, divided where the source
  has the comment \<open>Build report text\<close>: \<open>weekly_figures\<close> computes the local variables
  of the first part, and \<open>generate_weekly_report\<close> builds the text from them and saves
  it.  The result is the returned dict and the session after the commit, or the
  exception raised.
\<close>

record week_figures =
  wf_week_start :: date
  wf_week_end :: date
  wf_completed_this_week :: int
  wf_total_tasks :: int
  wf_logs_this_week :: int
  wf_possible_logs :: int
  wf_habit_rate :: int
  wf_task_rate :: int
  wf_weekly_score :: int
  wf_best_habit :: "string option"
  wf_best_streak :: nat

definition weekly_figures :: "date \<Rightarrow> db \<Rightarrow> user \<Rightarrow> py_error + week_figures" where
  "weekly_figures today d u =
     (let week_end = week_end_of today;
          week_start = week_start_of today;
          all_tasks = active_tasks d (u_id u);
          completed_this_week = int (length (filter (\<lambda>t. t_status t = ''completed'') all_tasks));
          n_tasks = int (length all_tasks);
          all_habits = active_habits d (u_id u);
          logs_this_week =
            count_joined_logs d (u_id u) (\<lambda>dt. dt \<ge> week_start \<and> dt \<le> week_end);
          n_habits = int (length all_habits);
          possible_logs = n_habits * 7
      in case percent_or_zero logs_this_week possible_logs of
           Inl e \<Rightarrow> Inl e
         | Inr habit_percent \<Rightarrow>
            (case percent_or_zero completed_this_week n_tasks of
               Inl e \<Rightarrow> Inl e
             | Inr task_percent \<Rightarrow>
                 let habit_rate = py_round habit_percent;
                     task_rate = py_round task_percent;
                     weekly_score =
                       weighted_score (fl (of_int task_rate)) (fl (of_int habit_rate));
                     (best_habit, best_streak) = best_streak_loop d today all_habits None 0
                 in Inr \<lparr>wf_week_start = week_start, wf_week_end = week_end,
                         wf_completed_this_week = completed_this_week,
                         wf_total_tasks = n_tasks, wf_logs_this_week = logs_this_week,
                         wf_possible_logs = possible_logs, wf_habit_rate = habit_rate,
                         wf_task_rate = task_rate, wf_weekly_score = weekly_score,
                         wf_best_habit = best_habit, wf_best_streak = best_streak\<rparr>))"

definition report_text :: "user \<Rightarrow> week_figures \<Rightarrow> string" where
  "report_text u f =
     report_text_of (opening_line (wf_weekly_score f) (display_name u))
       (wf_completed_this_week f) (wf_total_tasks f) (wf_task_rate f)
       (wf_logs_this_week f) (wf_possible_logs f) (wf_habit_rate f) (wf_weekly_score f)
       (streak_line (wf_best_habit f) (wf_best_streak f))
       (wf_week_start f) (wf_week_end f)"

definition generate_weekly_report :: "date \<Rightarrow> db \<Rightarrow> user \<Rightarrow> py_error + report_result \<times> db" where
  "generate_weekly_report today d u =
     (case weekly_figures today d u of
        Inl e \<Rightarrow> Inl e
      | Inr f \<Rightarrow>
          let result = \<lparr>rr_report = report_text u f, rr_score = wf_weekly_score f\<rparr>
          in (case find (same_week_report (u_id u) (wf_week_start f)) (weekly_reports d) of
                Some existing \<Rightarrow>
                  Inr (result,
                       d\<lparr>weekly_reports :=
                           update_first (same_week_report (u_id u) (wf_week_start f))
                             (\<lambda>r. r\<lparr>r_report := report_text u f,
                                     r_score := wf_weekly_score f\<rparr>)
                             (weekly_reports d)\<rparr>)
              | None \<Rightarrow>
                  let new_report =
                        \<lparr>r_id = next_id (map r_id (weekly_reports d)),
                         r_user_id = u_id u, r_week_start = wf_week_start f,
                         r_week_end = wf_week_end f, r_report = report_text u f,
                         r_score = wf_weekly_score f\<rparr>
                  in Inr (result, d\<lparr>weekly_reports := weekly_reports d @ [new_report]\<rparr>)))"

section \<open>The weekly batch job\<close>

text \<open>The lines that \<open>run_weekly_reports\<close> writes to the logger.\<close>

datatype log_line =
    JobStarted
  | ReportGenerated string int
  | ReportFailed string py_error
  | JobDone int

text \<open>
  What a caller of the job receives: Python's \<open>None\<close>, the value of a function that ends
  without a \<open>return\<close> statement, or a dict with the key \<open>usersProcessed\<close>.
\<close>

datatype job_return = ReturnsNone | ReturnsUsersProcessed int

text \<open>
  The job opens one session and uses it for all users, and no line of \<open>main.py\<close> calls
  \<open>db.rollback()\<close>.  After a failure of the database the session refuses every further
  statement with PendingRollbackError until it is rolled back, and the attributes of
  the loaded rows are expired.  An exception that did not come from the database leaves
  the session usable.
\<close>

fun breaks_session :: "py_error \<Rightarrow> bool" where
  "breaks_session (GatewayError message) = True"
| "breaks_session PendingRollbackError = True"
| "breaks_session ZeroDivisionError = False"
| "breaks_session (RuntimeError message) = False"

text \<open>
  The loop \<open>for user in users\<close> with its \<open>try\<close> and \<open>except Exception\<close>.  The function
  called in the \<open>try\<close> block is the parameter \<open>gen\<close>, so that a generator that raises
  for some user can be put in; a call that raises has committed nothing.  The handler
  builds its message from \<open>user.email\<close>: when the exception has broken the session,
  reading this expired attribute raises PendingRollbackError inside the handler, which
  ends the loop and leaves the job before anything is logged for this user; otherwise
  the failure is logged and the loop goes on.  The result is the exception that left
  the loop, if any, with the session and the log at that point.
\<close>

fun reports_loop ::
  "(db \<Rightarrow> user \<Rightarrow> py_error + report_result \<times> db) \<Rightarrow> db \<Rightarrow> user list \<Rightarrow> log_line list
     \<Rightarrow> py_error option \<times> db \<times> log_line list" where
  "reports_loop gen d [] logged = (None, d, logged)"
| "reports_loop gen d (u # rest) logged =
     (case gen d u of
        Inr (result, d') \<Rightarrow>
          reports_loop gen d' rest (logged @ [ReportGenerated (u_email u) (rr_score result)])
      | Inl e \<Rightarrow>
          if breaks_session e then (Some PendingRollbackError, d, logged)
          else reports_loop gen d rest (logged @ [ReportFailed (u_email u) e]))"

text \<open>\<open>get_all_users(db)\<close>\<close>

definition get_all_users :: "db \<Rightarrow> user list" where
  "get_all_users d = users d"

text \<open>
  The job with the generator as a parameter: the exception that leaves it or the value
  it returns, the session and the log.  The last message, with \<open>len(users)\<close>, is
  logged when the loop has ended without an exception.
\<close>

definition run_weekly_reports_with ::
  "(db \<Rightarrow> user \<Rightarrow> py_error + report_result \<times> db) \<Rightarrow> db
     \<Rightarrow> (py_error + job_return) \<times> db \<times> log_line list" where
  "run_weekly_reports_with gen d =
     (let all_users = get_all_users d
      in case reports_loop gen d all_users [JobStarted] of
           (Some e, d', logged) \<Rightarrow> (Inl e, d', logged)
         | (None, d', logged) \<Rightarrow>
             (Inr ReturnsNone, d', logged @ [JobDone (int (length all_users))]))"

text \<open>\<open>run_weekly_reports()\<close> of \<open>main.py\<close>, which calls \<open>services.generate_weekly_report\<close>.\<close>

definition run_weekly_reports ::
  "date \<Rightarrow> db \<Rightarrow> (py_error + job_return) \<times> db \<times> log_line list" where
  "run_weekly_reports today d = run_weekly_reports_with (generate_weekly_report today) d"

text \<open>
  A generator that raises the exception \<open>e\<close> for the user with the id \<open>bad\<close> and is
  \<open>generate_weekly_report\<close> for everybody else.
\<close>

definition failing_for ::
  "int \<Rightarrow> py_error \<Rightarrow> date \<Rightarrow> db \<Rightarrow> user \<Rightarrow> py_error + report_result \<times> db" where
  "failing_for bad e today d u =
     (if u_id u = bad then Inl e else generate_weekly_report today d u)"

section \<open>An example database\<close>

text \<open>
  Three users; the first has three tasks, two of them completed, and two habits, each
  with completed logs on 2024-06-10, 2024-06-11 and 2024-06-12 (ordinal 739049); the
  other two users have no tasks and no habits.
\<close>

definition example_db :: db where
  "example_db =
     \<lparr>users = [\<lparr>u_id = 1, u_name = ''Ann'', u_email = ''ann@example.org''\<rparr>,
               \<lparr>u_id = 2, u_name = '''', u_email = ''bob@example.org''\<rparr>,
               \<lparr>u_id = 3, u_name = ''Cy'', u_email = ''cy@example.org''\<rparr>],
      tasks = [\<lparr>t_id = 1, t_title = ''a'', t_status = ''completed'', t_is_deleted = False, t_user_id = 1\<rparr>,
               \<lparr>t_id = 2, t_title = ''b'', t_status = ''pending'', t_is_deleted = False, t_user_id = 1\<rparr>,
               \<lparr>t_id = 3, t_title = ''c'', t_status = ''completed'', t_is_deleted = False, t_user_id = 1\<rparr>],
      habits = [\<lparr>h_id = 1, h_name = ''run'', h_target_type = ''daily'', h_is_deleted = False, h_user_id = 1\<rparr>,
                \<lparr>h_id = 2, h_name = ''read'', h_target_type = ''daily'', h_is_deleted = False, h_user_id = 1\<rparr>],
      habit_logs = [\<lparr>l_id = 1, l_habit_id = 1, l_date = 739047, l_completed = True\<rparr>,
                    \<lparr>l_id = 2, l_habit_id = 1, l_date = 739048, l_completed = True\<rparr>,
                    \<lparr>l_id = 3, l_habit_id = 1, l_date = 739049, l_completed = True\<rparr>,
                    \<lparr>l_id = 4, l_habit_id = 2, l_date = 739048, l_completed = True\<rparr>,
                    \<lparr>l_id = 5, l_habit_id = 2, l_date = 739049, l_completed = True\<rparr>,
                    \<lparr>l_id = 6, l_habit_id = 2, l_date = 739047, l_completed = True\<rparr>],
      weekly_reports = []\<rparr>"

section \<open>Properties of the streak calculator\<close>

lemma streak_loop_no_today:
  "\<forall>l \<in> set logs. l_date l \<noteq> today \<Longrightarrow> streak_loop today logs 0 False today = (0, False)"
  by (induction logs) auto

lemma streak_loop_flag:
  "streak_loop today logs s b c = (s', b') \<Longrightarrow> (s \<ge> 1 \<longrightarrow> b) \<Longrightarrow> (s = 0 \<longrightarrow> c = today)
     \<Longrightarrow> (s' \<ge> 1 \<longrightarrow> b')"
proof (induction logs arbitrary: s b c)
  case Nil
  then show ?case by simp
next
  case (Cons l logs)
  show ?case
  proof (cases "l_date l = today")
    case True
    with Cons.prems have "streak_loop today logs (s + 1) True (today - 1) = (s', b')" by simp
    from Cons.IH[OF this] show ?thesis by simp
  next
    case nt: False
    show ?thesis
    proof (cases "l_date l = c")
      case True
      with nt Cons.prems have run: "streak_loop today logs (s + 1) b (c - 1) = (s', b')"
        by simp
      from True nt Cons.prems(3) have "s \<noteq> 0" by auto
      with Cons.prems(2) have "b" by simp
      with Cons.IH[OF run] show ?thesis by simp
    next
      case nc: False
      show ?thesis
      proof (cases "l_date l < c")
        case True
        with nt nc Cons.prems show ?thesis by auto
      next
        case False
        with nt nc Cons.prems have "streak_loop today logs s b c = (s', b')" by simp
        from Cons.IH[OF this Cons.prems(2,3)] show ?thesis .
      qed
    qed
  qed
qed

lemma streak_loop_keeps_flag: "snd (streak_loop today logs s True c)"
  by (induction logs arbitrary: s c) auto

lemma streak_loop_finds_today:
  "sorted_desc logs \<Longrightarrow> \<exists>l \<in> set logs. l_date l = today
     \<Longrightarrow> snd (streak_loop today logs 0 False today)"
proof (induction logs)
  case Nil
  then show ?case by simp
next
  case (Cons l logs)
  show ?case
  proof (cases "l_date l = today")
    case True
    then show ?thesis by (simp add: streak_loop_keeps_flag)
  next
    case False
    from Cons.prems(1) have later: "\<forall>x \<in> set logs. l_date x \<le> l_date l" and srt: "sorted_desc logs"
      by (auto simp: sorted_desc_def)
    from False Cons.prems(2) obtain x where x: "x \<in> set logs" "l_date x = today" by auto
    with later have "today \<le> l_date l" by auto
    with False have "\<not> l_date l < today" by simp
    with False Cons.IH[OF srt] x show ?thesis by auto
  qed
qed

text \<open>
  C1 as the specification states it, at today = 2024-06-12 (ordinal 739049): with completed
  logs on 2024-06-11 and 2024-06-10 only, the calculator does not return streak 2 with
  logged_today false.
\<close>

theorem streak_two_days_before_today_counterexample:
  "calculate_streak
     [\<lparr>l_id = 1, l_habit_id = 1, l_date = 739048, l_completed = True\<rparr>,
      \<lparr>l_id = 2, l_habit_id = 1, l_date = 739047, l_completed = True\<rparr>] 739049 \<noteq> (2, False)"
  by (simp add: calculate_streak_def)

text \<open>
  C1, amended: for a habit whose completed logs, newest first, are exactly those of
  today - 1 and today - 2, the streak calculator returns streak 0 and logged_today false:
  the first log is earlier than the expected date, today, and ends the loop.
\<close>

theorem streak_two_days_before_today:
  "calculate_streak
     [\<lparr>l_id = i1, l_habit_id = h, l_date = today - 1, l_completed = True\<rparr>,
      \<lparr>l_id = i2, l_habit_id = h, l_date = today - 2, l_completed = True\<rparr>] today = (0, False)"
  by (simp add: calculate_streak_def)

text \<open>The amended C1 at today = 2024-06-12.\<close>

theorem streak_two_days_before_today_witness:
  "calculate_streak
     [\<lparr>l_id = 1, l_habit_id = 1, l_date = 739048, l_completed = True\<rparr>,
      \<lparr>l_id = 2, l_habit_id = 1, l_date = 739047, l_completed = True\<rparr>] 739049 = (0, False)"
  using streak_two_days_before_today [of 1 1 739049 2] by simp

text \<open>The query that feeds the calculator delivers its logs sorted newest first.\<close>

lemma completed_logs_sorted: "sorted_desc (completed_logs d habit_id)"
proof -
  let ?xs = "filter (\<lambda>l. l_habit_id l = habit_id \<and> l_completed l) (habit_logs d)"
  have "sorted (map (\<lambda>l. - l_date l) (sort_key (\<lambda>l. - l_date l) ?xs))"
    by (rule sorted_sort_key)
  then show ?thesis
    by (simp add: sorted_desc_def completed_logs_def sorted_wrt_map)
qed

text \<open>
  C2: for every list of completed logs sorted newest first and every reference date
  today, a streak of at least 1 implies logged_today, and when no log has the date today
  the streak is 0; the two are the same statement, because on such a list logged_today
  holds exactly when some log has the date today.
\<close>

theorem streak_needs_today:
  assumes "sorted_desc logs"
  shows "(1 \<le> fst (calculate_streak logs today) \<longrightarrow> snd (calculate_streak logs today))
       \<and> ((\<forall>l \<in> set logs. l_date l \<noteq> today) \<longrightarrow> fst (calculate_streak logs today) = 0)
       \<and> (snd (calculate_streak logs today) \<longleftrightarrow> (\<exists>l \<in> set logs. l_date l = today))"
proof (intro conjI impI)
  assume "1 \<le> fst (calculate_streak logs today)"
  then show "snd (calculate_streak logs today)"
    using streak_loop_flag [of today logs 0 False today
        "fst (calculate_streak logs today)" "snd (calculate_streak logs today)"]
    by (simp add: calculate_streak_def)
next
  assume "\<forall>l \<in> set logs. l_date l \<noteq> today"
  then show "fst (calculate_streak logs today) = 0"
    by (simp add: calculate_streak_def streak_loop_no_today)
next
  show "snd (calculate_streak logs today) \<longleftrightarrow> (\<exists>l \<in> set logs. l_date l = today)"
  proof
    assume logged: "snd (calculate_streak logs today)"
    show "\<exists>l \<in> set logs. l_date l = today"
    proof (rule ccontr)
      assume "\<not> (\<exists>l \<in> set logs. l_date l = today)"
      then have "\<forall>l \<in> set logs. l_date l \<noteq> today" by simp
      then have "calculate_streak logs today = (0, False)"
        by (simp add: calculate_streak_def streak_loop_no_today)
      with logged show False by simp
    qed
  next
    assume "\<exists>l \<in> set logs. l_date l = today"
    with assms show "snd (calculate_streak logs today)"
      by (simp add: calculate_streak_def streak_loop_finds_today)
  qed
qed

text \<open>
  C2 at today = 2024-06-12 with the unbroken run 2024-06-11, 2024-06-10, 2024-06-09 that
  ends yesterday: the streak is 0.
\<close>

theorem streak_needs_today_witness:
  "sorted_desc
     [\<lparr>l_id = 3, l_habit_id = 1, l_date = 739048, l_completed = True\<rparr>,
      \<lparr>l_id = 2, l_habit_id = 1, l_date = 739047, l_completed = True\<rparr>,
      \<lparr>l_id = 1, l_habit_id = 1, l_date = 739046, l_completed = True\<rparr>]
   \<and> fst (calculate_streak
     [\<lparr>l_id = 3, l_habit_id = 1, l_date = 739048, l_completed = True\<rparr>,
      \<lparr>l_id = 2, l_habit_id = 1, l_date = 739047, l_completed = True\<rparr>,
      \<lparr>l_id = 1, l_habit_id = 1, l_date = 739046, l_completed = True\<rparr>] 739049) = 0"
proof -
  have s: "sorted_desc
     [\<lparr>l_id = 3, l_habit_id = 1, l_date = 739048, l_completed = True\<rparr>,
      \<lparr>l_id = 2, l_habit_id = 1, l_date = 739047, l_completed = True\<rparr>,
      \<lparr>l_id = 1, l_habit_id = 1, l_date = 739046, l_completed = True\<rparr>]"
    by (simp add: sorted_desc_def)
  from streak_needs_today [OF s, of 739049] s show ?thesis by simp
qed

section \<open>Properties of the habit services\<close>

lemma update_first_keys:
  "(\<And>x. key (f x) = key x) \<Longrightarrow> map key (update_first P f xs) = map key xs"
  by (induction xs) auto

lemma length_update_first: "length (update_first P f xs) = length xs"
  by (induction xs) auto

lemma find_update_first:
  "find P xs = Some x \<Longrightarrow> P (f x) \<Longrightarrow> find P (update_first P f xs) = Some (f x)"
  by (induction xs) (auto split: if_splits)

lemma one_log_per_day_empty: "habit_logs d = [] \<Longrightarrow> one_log_per_day d"
  by (simp add: one_log_per_day_def)

lemma log_habit_keeps_invariant:
  assumes "one_log_per_day d"
  shows "one_log_per_day (snd (log_habit d habit_id log_date completed user_id))"
proof (cases "find (owned_habit habit_id user_id) (habits d)")
  case None
  with assms show ?thesis by (simp add: log_habit_def)
next
  case (Some habit)
  show ?thesis
  proof (cases "find (same_day_log habit_id log_date) (habit_logs d)")
    case None
    then have "\<forall>l \<in> set (habit_logs d). \<not> same_day_log habit_id log_date l"
      by (simp add: find_None_iff)
    then have "(habit_id, log_date) \<notin> (\<lambda>l. (l_habit_id l, l_date l)) ` set (habit_logs d)"
      by (auto simp: same_day_log_def)
    with assms Some None show ?thesis
      by (simp add: log_habit_def one_log_per_day_def Let_def)
  next
    case existing: (Some e)
    have "map (\<lambda>l. (l_habit_id l, l_date l))
            (update_first (same_day_log habit_id log_date)
               (\<lambda>l. l\<lparr>l_completed := completed\<rparr>) (habit_logs d))
          = map (\<lambda>l. (l_habit_id l, l_date l)) (habit_logs d)"
      by (rule update_first_keys) simp
    with assms Some existing show ?thesis
      by (simp add: log_habit_def one_log_per_day_def)
  qed
qed

lemma log_habit_calls_keep_invariant:
  "one_log_per_day d \<Longrightarrow> one_log_per_day (log_habit_calls d calls)"
proof (induction calls arbitrary: d)
  case Nil
  then show ?case by simp
next
  case (Cons c calls)
  obtain habit_id log_date completed user_id where c: "c = (habit_id, log_date, completed, user_id)"
    by (cases c) auto
  from Cons.prems have "one_log_per_day (snd (log_habit d habit_id log_date completed user_id))"
    by (rule log_habit_keeps_invariant)
  from Cons.IH[OF this] c show ?case by simp
qed

lemma log_habit_existing:
  assumes "find (owned_habit habit_id user_id) (habits d) = Some h"
    and "find (same_day_log habit_id log_date) (habit_logs d) = Some e"
  shows "fst (log_habit d habit_id log_date completed user_id) = Some (e\<lparr>l_completed := completed\<rparr>)"
    and "habit_logs (snd (log_habit d habit_id log_date completed user_id))
         = update_first (same_day_log habit_id log_date) (\<lambda>l. l\<lparr>l_completed := completed\<rparr>)
             (habit_logs d)"
  using assms by (simp_all add: log_habit_def)

text \<open>
  C9: a sequence of \<open>log_habit\<close> calls keeps the table at one log for each habit and
  date (the empty table has the property), and a call for a habit and date that already
  have a log returns that log with the new completed flag, leaves the number of rows and
  their ids as they were and stores the flag in that row.
\<close>

theorem log_habit_one_log_per_day:
  "(one_log_per_day d \<longrightarrow> one_log_per_day (log_habit_calls d calls))
   \<and> (find (owned_habit habit_id user_id) (habits d) \<noteq> None
        \<longrightarrow> find (same_day_log habit_id log_date) (habit_logs d) = Some e
        \<longrightarrow> fst (log_habit d habit_id log_date completed user_id)
              = Some (e\<lparr>l_completed := completed\<rparr>)
          \<and> length (habit_logs (snd (log_habit d habit_id log_date completed user_id)))
              = length (habit_logs d)
          \<and> map l_id (habit_logs (snd (log_habit d habit_id log_date completed user_id)))
              = map l_id (habit_logs d)
          \<and> find (same_day_log habit_id log_date)
               (habit_logs (snd (log_habit d habit_id log_date completed user_id)))
              = Some (e\<lparr>l_completed := completed\<rparr>))"
proof (intro conjI impI)
  assume "one_log_per_day d"
  then show "one_log_per_day (log_habit_calls d calls)"
    by (rule log_habit_calls_keep_invariant)
next
  assume own: "find (owned_habit habit_id user_id) (habits d) \<noteq> None"
    and ex: "find (same_day_log habit_id log_date) (habit_logs d) = Some e"
  from own obtain h where h: "find (owned_habit habit_id user_id) (habits d) = Some h" by auto
  note facts = log_habit_existing [OF h ex, of completed]
  show "fst (log_habit d habit_id log_date completed user_id) = Some (e\<lparr>l_completed := completed\<rparr>)"
    by (rule facts(1))
  show "length (habit_logs (snd (log_habit d habit_id log_date completed user_id)))
          = length (habit_logs d)"
    by (simp add: facts(2) length_update_first)
  show "map l_id (habit_logs (snd (log_habit d habit_id log_date completed user_id)))
          = map l_id (habit_logs d)"
    by (simp add: facts(2) update_first_keys)
  from ex have "same_day_log habit_id log_date e"
    by (auto simp: find_Some_iff)
  then have "same_day_log habit_id log_date (e\<lparr>l_completed := completed\<rparr>)"
    by (simp add: same_day_log_def)
  with ex show "find (same_day_log habit_id log_date)
               (habit_logs (snd (log_habit d habit_id log_date completed user_id)))
              = Some (e\<lparr>l_completed := completed\<rparr>)"
    by (simp add: facts(2) find_update_first)
qed

text \<open>
  C9 on the example database: habit 1 is logged again for 2024-06-12, now as not
  completed, and then for 2024-06-13.
\<close>

theorem log_habit_one_log_per_day_witness:
  "one_log_per_day example_db
   \<and> one_log_per_day (log_habit_calls example_db [(1, 739049, False, 1), (1, 739050, True, 1)])
   \<and> length (habit_logs (snd (log_habit example_db 1 739049 False 1))) = 6
   \<and> fst (log_habit example_db 1 739049 False 1)
       = Some \<lparr>l_id = 3, l_habit_id = 1, l_date = 739049, l_completed = False\<rparr>"
proof -
  have inv: "one_log_per_day example_db"
    by (simp add: one_log_per_day_def example_db_def)
  have own: "find (owned_habit 1 1) (habits example_db) \<noteq> None"
    by (simp add: example_db_def owned_habit_def)
  have ex: "find (same_day_log 1 739049) (habit_logs example_db)
            = Some \<lparr>l_id = 3, l_habit_id = 1, l_date = 739049, l_completed = True\<rparr>"
    by (simp add: example_db_def same_day_log_def)
  have len: "length (habit_logs example_db) = 6"
    by (simp add: example_db_def)
  from log_habit_one_log_per_day
         [of example_db "[(1, 739049, False, 1), (1, 739050, True, 1)]" 1 1 739049
             "\<lparr>l_id = 3, l_habit_id = 1, l_date = 739049, l_completed = True\<rparr>" False]
       inv own ex len
  show ?thesis by simp
qed

text \<open>
  C10: when \<open>edit_habit\<close> finds the habit, its response has current_streak 0 and
  is_logged_today false, whatever the logs of the habit are.
\<close>

theorem edit_habit_reports_no_streak:
  "find (owned_habit habit_id user_id) (habits d) = Some h \<Longrightarrow>
   \<exists>r d'. edit_habit d habit_id user_id new_name = (Some r, d')
          \<and> current_streak r = 0 \<and> \<not> is_logged_today r \<and> hr_name r = new_name"
  by (simp add: edit_habit_def Let_def)

text \<open>
  C10 on the example database at today = 2024-06-12: habit 1 has a streak of 3 days and
  is logged today, and renaming it answers with streak 0 and not logged.
\<close>

theorem edit_habit_reports_no_streak_witness:
  "find (owned_habit 1 1) (habits example_db)
     = Some \<lparr>h_id = 1, h_name = ''run'', h_target_type = ''daily'', h_is_deleted = False, h_user_id = 1\<rparr>
   \<and> listed_streak example_db 739049 1 = (3, True)
   \<and> (\<exists>r d'. edit_habit example_db 1 1 ''jog'' = (Some r, d')
          \<and> current_streak r = 0 \<and> \<not> is_logged_today r \<and> hr_name r = ''jog'')"
proof -
  have f: "find (owned_habit 1 1) (habits example_db)
     = Some \<lparr>h_id = 1, h_name = ''run'', h_target_type = ''daily'', h_is_deleted = False, h_user_id = 1\<rparr>"
    by (simp add: example_db_def owned_habit_def)
  have s: "listed_streak example_db 739049 1 = (3, True)"
    by (simp add: listed_streak_def completed_logs_def example_db_def calculate_streak_def)
  from edit_habit_reports_no_streak [OF f, of "''jog''"] f s show ?thesis by simp
qed

section \<open>Properties of the floating-point model\<close>

lemma round_half_even_of_int: "round_half_even (of_int n) = n"
  by (simp add: round_half_even_def)

lemma round_half_even_bounds:
  "of_int (round_half_even x) \<le> x + 1 / 2" "x - 1 / 2 \<le> of_int (round_half_even x)"
  "\<lfloor>x\<rfloor> \<le> round_half_even x" "round_half_even x \<le> \<lfloor>x\<rfloor> + 1"
  unfolding round_half_even_def Let_def by (auto simp: ) linarith+

lemma round_half_even_mono:
  assumes "x \<le> y"
  shows "round_half_even x \<le> round_half_even y"
proof (cases "\<lfloor>x\<rfloor> = \<lfloor>y\<rfloor>")
  case True
  with assms have "x - of_int \<lfloor>x\<rfloor> \<le> y - of_int \<lfloor>y\<rfloor>" by simp
  with True show ?thesis
    unfolding round_half_even_def Let_def by auto
next
  case False
  with assms have "\<lfloor>x\<rfloor> < \<lfloor>y\<rfloor>"
    using floor_mono [of x y] by linarith
  then have "\<lfloor>x\<rfloor> + 1 \<le> \<lfloor>y\<rfloor>" by simp
  with round_half_even_bounds(4) [of x] round_half_even_bounds(3) [of y]
  show ?thesis by linarith
qed

lemma bit_length_nonpos: "n \<le> 0 \<Longrightarrow> bit_length n = 0"
  by (subst bit_length.simps) simp

lemma bit_length_step: "0 < n \<Longrightarrow> bit_length n = 1 + bit_length (n div 2)"
  by (subst bit_length.simps) simp

lemma bit_length_pos: "0 < n \<Longrightarrow> 1 \<le> bit_length n"
proof (induction n rule: bit_length.induct)
  case (1 n)
  show ?case
  proof (cases "n div 2 \<le> 0")
    case True
    with "1.prems" show ?thesis by (simp add: bit_length_step bit_length_nonpos)
  next
    case False
    with "1.IH" "1.prems" have "1 \<le> bit_length (n div 2)" by simp
    with "1.prems" show ?thesis by (simp add: bit_length_step)
  qed
qed

lemma bit_length_bounds:
  "0 < n \<Longrightarrow> 2 ^ nat (bit_length n - 1) \<le> n \<and> n < 2 ^ nat (bit_length n)"
proof (induction n rule: bit_length.induct)
  case (1 n)
  show ?case
  proof (cases "n div 2 \<le> 0")
    case True
    with "1.prems" have "n = 1" by linarith
    then show ?thesis by (simp add: bit_length_step bit_length_nonpos)
  next
    case False
    then have pos: "0 < n div 2" by simp
    let ?k = "bit_length (n div 2)"
    from "1.IH" "1.prems" pos
    have ih: "2 ^ nat (?k - 1) \<le> n div 2" "n div 2 < 2 ^ nat ?k" by simp_all
    from bit_length_pos [OF pos] have k: "1 \<le> ?k" .
    have bl: "bit_length n = 1 + ?k" using "1.prems" by (rule bit_length_step)
    from k have e1: "nat (bit_length n - 1) = Suc (nat (?k - 1))"
      unfolding bl by simp
    from k have e2: "nat (bit_length n) = Suc (nat ?k)"
      unfolding bl by simp
    have "2 * (n div 2) \<le> n" "n \<le> 2 * (n div 2) + 1" by presburger+
    with ih show ?thesis unfolding e1 e2 by simp
  qed
qed

lemma bit_length_bounds_rat:
  assumes "0 < n"
  shows "(2::rat) powi (bit_length n - 1) \<le> of_int n" "of_int n < (2::rat) powi (bit_length n)"
proof -
  from bit_length_pos [OF assms] have k: "1 \<le> bit_length n" .
  from bit_length_bounds [OF assms]
  have "(of_int (2 ^ nat (bit_length n - 1)) :: rat) \<le> of_int n"
       "(of_int n :: rat) < of_int (2 ^ nat (bit_length n))"
    unfolding of_int_le_iff of_int_less_iff by simp_all
  with k show "(2::rat) powi (bit_length n - 1) \<le> of_int n" "of_int n < (2::rat) powi (bit_length n)"
    by (simp_all add: power_int_def)
qed

lemma ilog2_bounds:
  assumes "0 < x"
  shows "2 powi (ilog2 x) \<le> x" "x < 2 powi (ilog2 x + 1)"
proof -
  obtain a b where q: "quotient_of x = (a, b)" by (cases "quotient_of x")
  then have b: "0 < b" and x: "x = of_int a / of_int b"
    by (simp_all add: quotient_of_denom_pos quotient_of_div)
  with assms have a: "0 < a"
    by (simp add: zero_less_divide_iff)
  let ?d = "bit_length a - bit_length b"
  note ba = bit_length_bounds_rat [OF a] and bb = bit_length_bounds_rat [OF b]
  have bpos: "(0::rat) < of_int b" using b by simp
  have "x < 2 powi (bit_length a) / 2 powi (bit_length b - 1)"
    unfolding x using ba(2) bb(1) bpos a
    by (intro frac_less) simp_all
  also have "(2::rat) powi (bit_length a) / 2 powi (bit_length b - 1) = 2 powi (?d + 1)"
    by (simp add: power_int_diff power_int_add)
  finally have up: "x < 2 powi (?d + 1)" .
  have "(2::rat) powi (?d - 1) = 2 powi (bit_length a - 1) / 2 powi (bit_length b)"
    by (simp add: power_int_diff)
  also have "\<dots> < x"
    unfolding x using ba(1) bb(2) bpos a
    by (intro frac_less2) simp_all
  finally have lo: "2 powi (?d - 1) < x" .
  have e: "ilog2 x = (if 2 powi ?d \<le> x then ?d else ?d - 1)"
    by (simp add: ilog2_def q Let_def)
  show "2 powi (ilog2 x) \<le> x" using lo unfolding e by auto
  show "x < 2 powi (ilog2 x + 1)" using up unfolding e by auto
qed

lemma ilog2_mono:
  assumes "0 < x" "x \<le> y"
  shows "ilog2 x \<le> ilog2 y"
proof (rule ccontr)
  assume "\<not> ilog2 x \<le> ilog2 y"
  then have "ilog2 y + 1 \<le> ilog2 x" by simp
  then have "(2::rat) powi (ilog2 y + 1) \<le> 2 powi (ilog2 x)"
    by (intro power_int_increasing) simp_all
  also have "\<dots> \<le> x" using assms(1) by (rule ilog2_bounds(1))
  finally have "2 powi (ilog2 y + 1) \<le> y" using assms(2) by simp
  moreover have "y < 2 powi (ilog2 y + 1)" using assms by (intro ilog2_bounds(2)) simp
  ultimately show False by simp
qed

lemma fl_pos:
  "0 < x \<Longrightarrow> fl x = of_int (round_half_even (x / 2 powi (ilog2 x - 52))) * 2 powi (ilog2 x - 52)"
  by (simp add: fl_def Let_def)

lemma fl_zero: "fl 0 = 0"
  by (simp add: fl_def)

lemma fl_binade:
  assumes "0 < x"
  shows "2 powi (ilog2 x) \<le> fl x" "fl x \<le> 2 powi (ilog2 x + 1)"
proof -
  let ?q = "(2::rat) powi (ilog2 x - 52)"
  have q: "0 < ?q" by simp
  have lo: "(2::rat) powi (ilog2 x) = of_int (2 ^ 52) * ?q"
    by (simp add: power_int_diff)
  have hi: "(2::rat) powi (ilog2 x + 1) = of_int (2 ^ 53) * ?q"
    by (simp add: power_int_diff power_int_add)
  from ilog2_bounds(1) [OF assms] have "of_int (2 ^ 52) * ?q \<le> x" unfolding lo .
  with q have "of_int (2 ^ 52) \<le> x / ?q" by (simp add: pos_le_divide_eq)
  from round_half_even_mono [OF this]
  have "2 ^ 52 \<le> round_half_even (x / ?q)" by (simp only: round_half_even_of_int)
  then have "(of_int (2 ^ 52) :: rat) \<le> of_int (round_half_even (x / ?q))"
    by (simp only: of_int_le_iff)
  with q have "of_int (2 ^ 52) * ?q \<le> of_int (round_half_even (x / ?q)) * ?q"
    by (intro mult_right_mono) simp_all
  then show "2 powi (ilog2 x) \<le> fl x"
    unfolding lo fl_pos [OF assms] .
  from ilog2_bounds(2) [OF assms] have "x \<le> of_int (2 ^ 53) * ?q" unfolding hi by simp
  with q have "x / ?q \<le> of_int (2 ^ 53)" by (simp add: pos_divide_le_eq)
  from round_half_even_mono [OF this]
  have "round_half_even (x / ?q) \<le> 2 ^ 53" by (simp only: round_half_even_of_int)
  then have "(of_int (round_half_even (x / ?q)) :: rat) \<le> of_int (2 ^ 53)"
    by (simp only: of_int_le_iff)
  with q have "of_int (round_half_even (x / ?q)) * ?q \<le> of_int (2 ^ 53) * ?q"
    by (intro mult_right_mono) simp_all
  then show "fl x \<le> 2 powi (ilog2 x + 1)"
    unfolding hi fl_pos [OF assms] .
qed

lemma fl_mono_pos:
  assumes "0 < x" "x \<le> y"
  shows "fl x \<le> fl y"
proof -
  from assms have y: "0 < y" by simp
  from ilog2_mono [OF assms] have le: "ilog2 x \<le> ilog2 y" .
  show ?thesis
  proof (cases "ilog2 x = ilog2 y")
    case True
    let ?q = "(2::rat) powi (ilog2 y - 52)"
    have q: "0 < ?q" by simp
    from assms(2) q have "x / ?q \<le> y / ?q" by (simp add: divide_right_mono)
    from round_half_even_mono [OF this]
    have "(of_int (round_half_even (x / ?q)) :: rat) \<le> of_int (round_half_even (y / ?q))"
      by (simp only: of_int_le_iff)
    with q have "of_int (round_half_even (x / ?q)) * ?q \<le> of_int (round_half_even (y / ?q)) * ?q"
      by (intro mult_right_mono) simp_all
    then show ?thesis
      unfolding fl_pos [OF assms(1)] fl_pos [OF y] True .
  next
    case False
    with le have "ilog2 x + 1 \<le> ilog2 y" by simp
    then have "(2::rat) powi (ilog2 x + 1) \<le> 2 powi (ilog2 y)"
      by (intro power_int_increasing) simp_all
    with fl_binade(2) [OF assms(1)] fl_binade(1) [OF y] show ?thesis by linarith
  qed
qed

lemma fl_mono: "0 \<le> x \<Longrightarrow> x \<le> y \<Longrightarrow> fl x \<le> fl y"
proof (cases "x = 0")
  case True
  assume "x \<le> y"
  show ?thesis
  proof (cases "y = 0")
    case True
    with \<open>x = 0\<close> show ?thesis by simp
  next
    case False
    with \<open>x = 0\<close> \<open>x \<le> y\<close> have "0 < y" by simp
    from fl_binade(1) [OF this] have "0 \<le> fl y"
      by (rule order_trans [rotated]) simp
    with \<open>x = 0\<close> show ?thesis by (simp add: fl_zero)
  qed
next
  case False
  assume "0 \<le> x" "x \<le> y"
  with False have "0 < x" by simp
  then show ?thesis using \<open>x \<le> y\<close> by (rule fl_mono_pos)
qed

lemma lit_0_6_value: "lit_0_6 = 5404319552844595 / 9007199254740992"
  unfolding lit_0_6_def by code_simp

lemma lit_0_4_value: "lit_0_4 = 3602879701896397 / 9007199254740992"
  unfolding lit_0_4_def by code_simp

lemma fl_top_values:
  "fl (100 * lit_0_6) = 60" "fl (100 * lit_0_4) = 40" "fl 100 = 100"
  by code_simp+

lemma weighted_score_bounds:
  assumes "0 \<le> t" "t \<le> 100" "0 \<le> h" "h \<le> 100"
  shows "0 \<le> weighted_score t h" "weighted_score t h \<le> 100"
proof -
  have p6: "0 \<le> lit_0_6" and p4: "0 \<le> lit_0_4"
    by (simp_all add: lit_0_6_value lit_0_4_value)
  from assms p6 have t: "0 \<le> t * lit_0_6" "t * lit_0_6 \<le> 100 * lit_0_6"
    by (simp_all add: mult_right_mono)
  from assms p4 have h: "0 \<le> h * lit_0_4" "h * lit_0_4 \<le> 100 * lit_0_4"
    by (simp_all add: mult_right_mono)
  from fl_mono [OF order_refl t(1)] fl_mono [OF t]
  have ft: "0 \<le> fmul t lit_0_6" "fmul t lit_0_6 \<le> 60"
    by (simp_all add: fmul_def fl_zero fl_top_values)
  from fl_mono [OF order_refl h(1)] fl_mono [OF h]
  have fh: "0 \<le> fmul h lit_0_4" "fmul h lit_0_4 \<le> 40"
    by (simp_all add: fmul_def fl_zero fl_top_values)
  from ft fh have s: "0 \<le> fmul t lit_0_6 + fmul h lit_0_4" "fmul t lit_0_6 + fmul h lit_0_4 \<le> 100"
    by simp_all
  from fl_mono [OF order_refl s(1)] fl_mono [OF s]
  have fs: "0 \<le> fadd (fmul t lit_0_6) (fmul h lit_0_4)" "fadd (fmul t lit_0_6) (fmul h lit_0_4) \<le> 100"
    by (simp_all add: fadd_def fl_zero fl_top_values)
  from round_half_even_mono [OF fs(1)] round_half_even_mono [OF fs(2)]
  show "0 \<le> weighted_score t h" "weighted_score t h \<le> 100"
    using round_half_even_of_int [of 0] round_half_even_of_int [of 100]
    by (simp_all add: weighted_score_def py_round_def)
qed

section \<open>Properties of the rates and scores\<close>

lemma percent_or_zero_total: "\<exists>x. percent_or_zero a b = Inr x"
  by (simp add: percent_or_zero_def py_truediv_def)

lemma percent_or_zero_empty: "percent_or_zero a 0 = Inr 0"
  by (simp add: percent_or_zero_def)

lemma get_dashboard_score:
  "get_dashboard today d user_id = Inr r \<Longrightarrow>
   productivity_score r = weighted_score (task_completion_rate r) (habit_consistency_rate r)"
  by (auto simp: get_dashboard_def Let_def split: sum.splits prod.splits)

lemma weekly_figures_score:
  "weekly_figures today d u = Inr f \<Longrightarrow>
   wf_weekly_score f = weighted_score (fl (of_int (wf_task_rate f))) (fl (of_int (wf_habit_rate f)))"
  by (auto simp: weekly_figures_def Let_def split: sum.splits prod.splits)

text \<open>
  C8: for every task rate and habit rate in the interval from 0 to 100, the score
  \<open>round(task_rate * 0.6 + habit_rate * 0.4)\<close>, computed in floating point, is an
  integer between 0 and 100.  It is the productivity score of the dashboard
  (\<open>get_dashboard_score\<close>) and the weekly score of the report (\<open>weekly_figures_score\<close>).
\<close>

theorem productivity_score_in_range:
  assumes "0 \<le> task_rate" "task_rate \<le> 100" "0 \<le> habit_rate" "habit_rate \<le> 100"
  shows "0 \<le> weighted_score task_rate habit_rate \<and> weighted_score task_rate habit_rate \<le> 100"
  using weighted_score_bounds [OF assms] by simp

text \<open>C8 at the task rate 60 and the habit rate 100.\<close>

theorem productivity_score_in_range_witness:
  "(0::rat) \<le> 60 \<and> (60::rat) \<le> 100 \<and> (0::rat) \<le> 100 \<and> (100::rat) \<le> 100
   \<and> 0 \<le> weighted_score 60 100 \<and> weighted_score 60 100 \<le> 100"
  using productivity_score_in_range [of 60 100] by simp

section \<open>Properties of the dashboard and of the weekly figures\<close>

lemma py_round_zero: "py_round 0 = 0"
  by (simp add: py_round_def round_half_even_def)

lemma py_round1_zero: "py_round1 0 = 0"
  by (simp add: py_round1_def round_half_even_def fl_zero)

lemma weekly_figures_total: "\<exists>f. weekly_figures today d u = Inr f"
proof -
  obtain x where x: "percent_or_zero
      (count_joined_logs d (u_id u) (\<lambda>dt. week_start_of today \<le> dt \<and> dt \<le> week_end_of today))
      (int (length (active_habits d (u_id u))) * 7) = Inr x"
    using percent_or_zero_total by blast
  obtain y where y: "percent_or_zero
      (int (length (filter (\<lambda>t. t_status t = ''completed'') (active_tasks d (u_id u)))))
      (int (length (active_tasks d (u_id u)))) = Inr y"
    using percent_or_zero_total by blast
  show ?thesis
    by (simp add: weekly_figures_def Let_def x y split: prod.splits)
qed

lemma get_dashboard_total: "\<exists>r. get_dashboard today d user_id = Inr r"
proof -
  obtain x where x: "percent_or_zero
      (int (length (filter (\<lambda>t. t_status t = ''completed'') (active_tasks d user_id))))
      (int (length (active_tasks d user_id))) = Inr x"
    using percent_or_zero_total by blast
  obtain y where y: "percent_or_zero
      (count_joined_logs d user_id (\<lambda>dt. today - weekday today \<le> dt))
      (if int (length (active_habits d user_id)) \<noteq> 0
       then int (length (active_habits d user_id)) * 7 else 0) = Inr y"
    using percent_or_zero_total by blast
  show ?thesis
    using y by (simp add: get_dashboard_def Let_def x split: prod.splits)
qed

lemma generate_weekly_report_total: "\<exists>res d'. generate_weekly_report today d u = Inr (res, d')"
proof -
  obtain f where "weekly_figures today d u = Inr f"
    using weekly_figures_total by blast
  then show ?thesis
    by (simp add: generate_weekly_report_def Let_def split: option.splits)
qed

lemma get_dashboard_no_tasks:
  "get_dashboard today d user_id = Inr r \<Longrightarrow> active_tasks d user_id = []
     \<Longrightarrow> task_completion_rate r = 0"
  by (auto simp: get_dashboard_def Let_def percent_or_zero_empty py_round1_zero
      split: sum.splits prod.splits)

lemma get_dashboard_no_habits:
  "get_dashboard today d user_id = Inr r \<Longrightarrow> active_habits d user_id = []
     \<Longrightarrow> habit_consistency_rate r = 0"
  by (auto simp: get_dashboard_def Let_def percent_or_zero_empty py_round1_zero
      split: sum.splits prod.splits)

lemma weekly_figures_no_tasks:
  "weekly_figures today d u = Inr f \<Longrightarrow> active_tasks d (u_id u) = [] \<Longrightarrow> wf_task_rate f = 0"
  by (auto simp: weekly_figures_def Let_def percent_or_zero_empty py_round_zero
      split: sum.splits prod.splits)

lemma weekly_figures_no_habits:
  "weekly_figures today d u = Inr f \<Longrightarrow> active_habits d (u_id u) = [] \<Longrightarrow> wf_habit_rate f = 0"
  by (auto simp: weekly_figures_def Let_def percent_or_zero_empty py_round_zero
      split: sum.splits prod.splits)

text \<open>
  C7: the dashboard and the report never fail in their rate computations: both always
  return a result, never ZeroDivisionError; with no active task the task rate is 0 and
  with no active habit the habit rate is 0, because the conditional expression
  \<open>(a / b * 100) if b else 0\<close> does not divide when \<open>b\<close> is 0.
\<close>

theorem rates_never_fail:
  "(\<exists>r. get_dashboard today d user_id = Inr r
        \<and> (active_tasks d user_id = [] \<longrightarrow> task_completion_rate r = 0)
        \<and> (active_habits d user_id = [] \<longrightarrow> habit_consistency_rate r = 0))
   \<and> (\<exists>f. weekly_figures today d u = Inr f
        \<and> (active_tasks d (u_id u) = [] \<longrightarrow> wf_task_rate f = 0)
        \<and> (active_habits d (u_id u) = [] \<longrightarrow> wf_habit_rate f = 0))
   \<and> (\<exists>res d'. generate_weekly_report today d u = Inr (res, d'))
   \<and> (\<forall>a. percent_or_zero a 0 = Inr 0)"
proof (intro conjI allI)
  obtain r where r: "get_dashboard today d user_id = Inr r"
    using get_dashboard_total by blast
  then show "\<exists>r. get_dashboard today d user_id = Inr r
        \<and> (active_tasks d user_id = [] \<longrightarrow> task_completion_rate r = 0)
        \<and> (active_habits d user_id = [] \<longrightarrow> habit_consistency_rate r = 0)"
    using get_dashboard_no_tasks [OF r] get_dashboard_no_habits [OF r] by blast
  obtain f where f: "weekly_figures today d u = Inr f"
    using weekly_figures_total by blast
  then show "\<exists>f. weekly_figures today d u = Inr f
        \<and> (active_tasks d (u_id u) = [] \<longrightarrow> wf_task_rate f = 0)
        \<and> (active_habits d (u_id u) = [] \<longrightarrow> wf_habit_rate f = 0)"
    using weekly_figures_no_tasks [OF f] weekly_figures_no_habits [OF f] by blast
  show "\<exists>res d'. generate_weekly_report today d u = Inr (res, d')"
    by (rule generate_weekly_report_total)
  show "\<And>a. percent_or_zero a 0 = Inr 0"
    by (rule percent_or_zero_empty)
qed

text \<open>
  C7 on the example database for user 2, who has neither tasks nor habits.
\<close>

theorem rates_never_fail_witness:
  "active_tasks example_db 2 = [] \<and> active_habits example_db 2 = []
   \<and> (\<exists>r. get_dashboard 739049 example_db 2 = Inr r
          \<and> task_completion_rate r = 0 \<and> habit_consistency_rate r = 0)
   \<and> (\<exists>f. weekly_figures 739049 example_db
              \<lparr>u_id = 2, u_name = '''', u_email = ''bob@example.org''\<rparr> = Inr f
          \<and> wf_task_rate f = 0 \<and> wf_habit_rate f = 0)"
proof -
  have t: "active_tasks example_db 2 = []" and h: "active_habits example_db 2 = []"
    by (simp_all add: active_tasks_def active_habits_def example_db_def)
  from rates_never_fail [of 739049 example_db 2
      "\<lparr>u_id = 2, u_name = '''', u_email = ''bob@example.org''\<rparr>"] t h
  show ?thesis by simp
qed

section \<open>Properties of the weekly report\<close>

lemma weekly_figures_window:
  "weekly_figures today d u = Inr f \<Longrightarrow>
   wf_week_end f = week_end_of today \<and> wf_week_start f = week_start_of today"
  by (auto simp: weekly_figures_def Let_def split: sum.splits prod.splits)

text \<open>
  C5 as the specification states it, at today = 2024-06-12, a Wednesday: the window of
  the report is not a week from Monday to Sunday.
\<close>

theorem report_window_counterexample:
  "\<not> (weekday (week_start_of (ymd2ord 2024 6 12)) = 0
      \<and> weekday (week_end_of (ymd2ord 2024 6 12)) = 6)"
  by (simp add: weekday_def week_start_of_def week_end_of_def ymd2ord_def days_before_year_def
      days_before_month_def DAYS_BEFORE_MONTH_def is_leap_def)

text \<open>
  C5, amended: for every today the window of the weekly report has week_end = today - 1
  and week_start = week_end - 6, and the figures of the report carry these two dates; for
  today = 2024-06-12 they are 2024-06-11 and 2024-06-05; the window runs from a Monday to
  a Sunday exactly when today is a Monday.
\<close>

theorem report_window:
  "week_end_of today = today - 1
   \<and> week_start_of today = week_end_of today - 6
   \<and> week_end_of (ymd2ord 2024 6 12) = ymd2ord 2024 6 11
   \<and> week_start_of (ymd2ord 2024 6 12) = ymd2ord 2024 6 5
   \<and> (weekday (week_start_of today) = 0 \<and> weekday (week_end_of today) = 6
        \<longleftrightarrow> weekday today = 0)
   \<and> (\<exists>f. weekly_figures today d u = Inr f
          \<and> wf_week_end f = week_end_of today \<and> wf_week_start f = week_start_of today)"
proof (intro conjI)
  show "weekday (week_start_of today) = 0 \<and> weekday (week_end_of today) = 6
        \<longleftrightarrow> weekday today = 0"
    unfolding weekday_def week_start_of_def week_end_of_def by presburger
  show "\<exists>f. weekly_figures today d u = Inr f
          \<and> wf_week_end f = week_end_of today \<and> wf_week_start f = week_start_of today"
    using weekly_figures_total [of today d u] weekly_figures_window by blast
qed (simp_all add: week_start_of_def week_end_of_def ymd2ord_def days_before_year_def
      days_before_month_def DAYS_BEFORE_MONTH_def is_leap_def)

text \<open>
  The amended C5 at today = 2024-06-10, a Monday, where the window is the week from
  Monday 2024-06-03 to Sunday 2024-06-09; at Wednesday 2024-06-12 it runs from a
  Wednesday to a Tuesday.
\<close>

theorem report_window_witness:
  "weekday (ymd2ord 2024 6 10) = 0
   \<and> weekday (week_start_of (ymd2ord 2024 6 10)) = 0
   \<and> weekday (week_end_of (ymd2ord 2024 6 10)) = 6
   \<and> week_start_of (ymd2ord 2024 6 10) = ymd2ord 2024 6 3
   \<and> week_end_of (ymd2ord 2024 6 10) = ymd2ord 2024 6 9
   \<and> weekday (ymd2ord 2024 6 12) = 2
   \<and> weekday (week_start_of (ymd2ord 2024 6 12)) = 2
   \<and> weekday (week_end_of (ymd2ord 2024 6 12)) = 1"
proof -
  have m: "weekday (ymd2ord 2024 6 10) = 0"
    by (simp add: weekday_def ymd2ord_def days_before_year_def
      days_before_month_def DAYS_BEFORE_MONTH_def is_leap_def)
  from report_window [of "ymd2ord 2024 6 10" example_db "users example_db ! 0"] m
  have "weekday (week_start_of (ymd2ord 2024 6 10)) = 0
        \<and> weekday (week_end_of (ymd2ord 2024 6 10)) = 6"
    by blast
  then show ?thesis
    by (simp add: weekday_def week_start_of_def week_end_of_def ymd2ord_def days_before_year_def
      days_before_month_def DAYS_BEFORE_MONTH_def is_leap_def)
qed

lemma best_streak_loop_result:
  "best_streak_loop d today hs bh0 bs0 = (bh, bs) \<Longrightarrow>
   (if \<forall>h \<in> set hs. habit_streak d today h \<le> bs0 then bh = bh0 \<and> bs = bs0
    else \<exists>pre h post. hs = pre @ h # post \<and> bh = Some (h_name h)
           \<and> bs = habit_streak d today h
           \<and> (\<forall>x \<in> set pre. habit_streak d today x < bs)
           \<and> (\<forall>x \<in> set hs. habit_streak d today x \<le> bs))"
proof (induction hs arbitrary: bh0 bs0)
  case Nil
  then show ?case by simp
next
  case (Cons h rest)
  let ?s = "habit_streak d today"
  show ?case
  proof (cases "?s h > bs0")
    case True
    with Cons.prems have run: "best_streak_loop d today rest (Some (h_name h)) (?s h) = (bh, bs)"
      by (simp add: Let_def)
    note ih = Cons.IH [OF run]
    show ?thesis
    proof (cases "\<forall>x \<in> set rest. ?s x \<le> ?s h")
      case all: True
      with ih have "bh = Some (h_name h)" "bs = ?s h" by simp_all
      with all have "h # rest = [] @ h # rest \<and> bh = Some (h_name h) \<and> bs = ?s h
           \<and> (\<forall>x \<in> set []. ?s x < bs) \<and> (\<forall>x \<in> set (h # rest). ?s x \<le> bs)"
        by simp
      then have "\<exists>pre h' post. h # rest = pre @ h' # post \<and> bh = Some (h_name h')
           \<and> bs = ?s h' \<and> (\<forall>x \<in> set pre. ?s x < bs) \<and> (\<forall>x \<in> set (h # rest). ?s x \<le> bs)"
        by blast
      with True show ?thesis by auto
    next
      case False
      with ih obtain pre h' post where p: "rest = pre @ h' # post" "bh = Some (h_name h')"
          "bs = ?s h'" "\<forall>x \<in> set pre. ?s x < bs" "\<forall>x \<in> set rest. ?s x \<le> bs"
        by auto
      from False obtain x where "x \<in> set rest" "?s h < ?s x" by auto
      with p(5) have "?s h < bs" by force
      with p have "h # rest = (h # pre) @ h' # post \<and> bh = Some (h_name h') \<and> bs = ?s h'
           \<and> (\<forall>x \<in> set (h # pre). ?s x < bs) \<and> (\<forall>x \<in> set (h # rest). ?s x \<le> bs)"
        by simp
      then have "\<exists>pre h' post. h # rest = pre @ h' # post \<and> bh = Some (h_name h')
           \<and> bs = ?s h' \<and> (\<forall>x \<in> set pre. ?s x < bs) \<and> (\<forall>x \<in> set (h # rest). ?s x \<le> bs)"
        by blast
      with True show ?thesis by auto
    qed
  next
    case small: False
    with Cons.prems have run: "best_streak_loop d today rest bh0 bs0 = (bh, bs)"
      by (simp add: Let_def)
    note ih = Cons.IH [OF run]
    show ?thesis
    proof (cases "\<forall>x \<in> set rest. ?s x \<le> bs0")
      case True
      with ih small show ?thesis by simp
    next
      case False
      with ih obtain pre h' post where p: "rest = pre @ h' # post" "bh = Some (h_name h')"
          "bs = ?s h'" "\<forall>x \<in> set pre. ?s x < bs" "\<forall>x \<in> set rest. ?s x \<le> bs"
        by auto
      from False obtain x where "x \<in> set rest" "bs0 < ?s x" by auto
      with p(5) small have "?s h < bs" by force
      with p have "h # rest = (h # pre) @ h' # post \<and> bh = Some (h_name h') \<and> bs = ?s h'
           \<and> (\<forall>x \<in> set (h # pre). ?s x < bs) \<and> (\<forall>x \<in> set (h # rest). ?s x \<le> bs)"
        by simp
      then have "\<exists>pre h' post. h # rest = pre @ h' # post \<and> bh = Some (h_name h')
           \<and> bs = ?s h' \<and> (\<forall>x \<in> set pre. ?s x < bs) \<and> (\<forall>x \<in> set (h # rest). ?s x \<le> bs)"
        by blast
      with False show ?thesis by auto
    qed
  qed
qed

lemma weekly_figures_best:
  "weekly_figures today d u = Inr f \<Longrightarrow>
   best_streak_loop d today (active_habits d (u_id u)) None 0 = (wf_best_habit f, wf_best_streak f)"
  by (auto simp: weekly_figures_def Let_def split: sum.splits prod.splits)

lemma generate_weekly_report_text:
  "weekly_figures today d u = Inr f \<Longrightarrow>
   \<exists>d'. generate_weekly_report today d u
          = Inr (\<lparr>rr_report = report_text u f, rr_score = wf_weekly_score f\<rparr>, d')"
  by (simp add: generate_weekly_report_def Let_def split: option.splits)

lemma report_text_streak_line:
  "\<exists>before after. report_text u f
      = before @ streak_line (wf_best_habit f) (wf_best_streak f) @ after"
proof -
  have "report_text u f
      = (opening_line (wf_weekly_score f) (display_name u) @ newline @ newline
     @ ''Tasks: You completed '' @ str_int (wf_completed_this_week f) @ '' out of ''
       @ str_int (wf_total_tasks f) @ '' tasks ('' @ str_int (wf_task_rate f) @ ''%).'' @ newline
     @ ''Habits: You logged '' @ str_int (wf_logs_this_week f) @ '' out of ''
       @ str_int (wf_possible_logs f) @ '' possible check-ins ('' @ str_int (wf_habit_rate f) @ ''%).''
       @ newline
     @ ''Weekly Score: '' @ str_int (wf_weekly_score f) @ ''/100'' @ newline @ newline)
     @ streak_line (wf_best_habit f) (wf_best_streak f)
     @ (newline @ newline
     @ ''Week: '' @ strftime_b_d (wf_week_start f) @ '' '' @ em_dash @ '' ''
     @ strftime_b_d_Y (wf_week_end f))"
    by (simp add: report_text_def report_text_of_def)
  then show ?thesis by blast
qed

text \<open>
  C6: the report takes the best habit from the streaks, evaluated at today, of all the
  habits of the user that are not deleted: the habit kept has the greatest streak and
  every habit before it in the list has a smaller one, so that of several habits with
  the greatest streak the first is kept, and the streak line of the returned text is the
  sentence that names this habit and its streak (a habit whose name is the empty string
  cannot be named: the line is then the prompt); when every streak is 0 no habit is kept
  and the streak line of the report text is the prompt to start a habit.
\<close>

theorem best_habit_by_streak:
  "\<exists>f res d'. weekly_figures today d u = Inr f
     \<and> generate_weekly_report today d u = Inr (res, d')
     \<and> (\<exists>before after. rr_report res
            = before @ streak_line (wf_best_habit f) (wf_best_streak f) @ after)
     \<and> (if \<forall>h \<in> set (active_habits d (u_id u)). habit_streak d today h = 0
         then wf_best_habit f = None \<and> wf_best_streak f = 0
              \<and> streak_line (wf_best_habit f) (wf_best_streak f) = start_a_habit
              \<and> streak_line (wf_best_habit f) (wf_best_streak f)
                  = ''Start a habit this week to build your first streak.''
         else \<exists>pre h post. active_habits d (u_id u) = pre @ h # post
                \<and> wf_best_habit f = Some (h_name h)
                \<and> wf_best_streak f = habit_streak d today h
                \<and> (\<forall>x \<in> set pre. habit_streak d today x < wf_best_streak f)
                \<and> (\<forall>x \<in> set (active_habits d (u_id u)).
                      habit_streak d today x \<le> wf_best_streak f)
                \<and> (h_name h \<noteq> [] \<longrightarrow>
                      streak_line (wf_best_habit f) (wf_best_streak f)
                      = ''Your best streak is '' @ [CHR 0x27] @ h_name h @ [CHR 0x27]
                        @ '' at '' @ str_int (int (habit_streak d today h)) @ '' days ''
                        @ [CHR 0xE2, CHR 0x80, CHR 0x94] @ '' keep it going!'')
                \<and> (h_name h = [] \<longrightarrow>
                      streak_line (wf_best_habit f) (wf_best_streak f)
                      = ''Start a habit this week to build your first streak.''))"
proof -
  obtain f where f: "weekly_figures today d u = Inr f"
    using weekly_figures_total by blast
  from generate_weekly_report_text [OF f] obtain d' where
    g: "generate_weekly_report today d u
          = Inr (\<lparr>rr_report = report_text u f, rr_score = wf_weekly_score f\<rparr>, d')" ..
  have t: "\<exists>before after. rr_report \<lparr>rr_report = report_text u f, rr_score = wf_weekly_score f\<rparr>
            = before @ streak_line (wf_best_habit f) (wf_best_streak f) @ after"
    using report_text_streak_line [of u f] by simp
  have b: "if \<forall>h \<in> set (active_habits d (u_id u)). habit_streak d today h = 0
         then wf_best_habit f = None \<and> wf_best_streak f = 0
              \<and> streak_line (wf_best_habit f) (wf_best_streak f) = start_a_habit
              \<and> streak_line (wf_best_habit f) (wf_best_streak f)
                  = ''Start a habit this week to build your first streak.''
         else \<exists>pre h post. active_habits d (u_id u) = pre @ h # post
                \<and> wf_best_habit f = Some (h_name h)
                \<and> wf_best_streak f = habit_streak d today h
                \<and> (\<forall>x \<in> set pre. habit_streak d today x < wf_best_streak f)
                \<and> (\<forall>x \<in> set (active_habits d (u_id u)).
                      habit_streak d today x \<le> wf_best_streak f)
                \<and> (h_name h \<noteq> [] \<longrightarrow>
                      streak_line (wf_best_habit f) (wf_best_streak f)
                      = ''Your best streak is '' @ [CHR 0x27] @ h_name h @ [CHR 0x27]
                        @ '' at '' @ str_int (int (habit_streak d today h)) @ '' days ''
                        @ [CHR 0xE2, CHR 0x80, CHR 0x94] @ '' keep it going!'')
                \<and> (h_name h = [] \<longrightarrow>
                      streak_line (wf_best_habit f) (wf_best_streak f)
                      = ''Start a habit this week to build your first streak.'')"
  proof (cases "\<forall>h \<in> set (active_habits d (u_id u)). habit_streak d today h = 0")
    case True
    then have "\<forall>h \<in> set (active_habits d (u_id u)). habit_streak d today h \<le> 0" by simp
    with best_streak_loop_result [OF weekly_figures_best [OF f]]
    have "wf_best_habit f = None \<and> wf_best_streak f = 0" by simp
    with True show ?thesis by (simp add: streak_line_def start_a_habit_def)
  next
    case False
    then have nle: "\<not> (\<forall>h \<in> set (active_habits d (u_id u)). habit_streak d today h \<le> 0)"
      by simp
    have "\<exists>pre h post. active_habits d (u_id u) = pre @ h # post
                \<and> wf_best_habit f = Some (h_name h)
                \<and> wf_best_streak f = habit_streak d today h
                \<and> (\<forall>x \<in> set pre. habit_streak d today x < wf_best_streak f)
                \<and> (\<forall>x \<in> set (active_habits d (u_id u)).
                      habit_streak d today x \<le> wf_best_streak f)"
      using best_streak_loop_result [OF weekly_figures_best [OF f]]
      unfolding if_not_P [OF nle] .
    then obtain pre h post where p: "active_habits d (u_id u) = pre @ h # post"
        "wf_best_habit f = Some (h_name h)" "wf_best_streak f = habit_streak d today h"
        "\<forall>x \<in> set pre. habit_streak d today x < wf_best_streak f"
        "\<forall>x \<in> set (active_habits d (u_id u)). habit_streak d today x \<le> wf_best_streak f"
      by blast
    have named: "h_name h \<noteq> [] \<longrightarrow>
                      streak_line (wf_best_habit f) (wf_best_streak f)
                      = ''Your best streak is '' @ [CHR 0x27] @ h_name h @ [CHR 0x27]
                        @ '' at '' @ str_int (int (habit_streak d today h)) @ '' days ''
                        @ [CHR 0xE2, CHR 0x80, CHR 0x94] @ '' keep it going!''"
      by (simp add: p(2,3) streak_line_def em_dash_def)
    have unnamed: "h_name h = [] \<longrightarrow>
                      streak_line (wf_best_habit f) (wf_best_streak f)
                      = ''Start a habit this week to build your first streak.''"
      by (simp add: p(2) streak_line_def start_a_habit_def)
    from p named unnamed show ?thesis unfolding if_not_P [OF False] by blast
  qed
  from f g t b show ?thesis by blast
qed

lemma example_figures:
  "weekly_figures 739049 example_db \<lparr>u_id = 1, u_name = ''Ann'', u_email = ''ann@example.org''\<rparr>
     = Inr \<lparr>wf_week_start = 739042, wf_week_end = 739048, wf_completed_this_week = 2,
            wf_total_tasks = 3, wf_logs_this_week = 4, wf_possible_logs = 14,
            wf_habit_rate = 29, wf_task_rate = 67, wf_weekly_score = 52,
            wf_best_habit = Some ''run'', wf_best_streak = 3\<rparr>"
  by code_simp

text \<open>
  C6 on the example database at today = 2024-06-12 for user 1, whose two habits both
  have a streak of 3: the first of them, \<open>run\<close>, is kept.
\<close>

theorem best_habit_by_streak_witness:
  "\<not> (\<forall>h \<in> set (active_habits example_db 1). habit_streak example_db 739049 h = 0)
   \<and> map (habit_streak example_db 739049) (active_habits example_db 1) = [3, 3]
   \<and> (\<exists>f. weekly_figures 739049 example_db
              \<lparr>u_id = 1, u_name = ''Ann'', u_email = ''ann@example.org''\<rparr> = Inr f
          \<and> wf_best_habit f = Some ''run'' \<and> wf_best_streak f = 3
          \<and> (\<exists>pre h post. active_habits example_db 1 = pre @ h # post
                \<and> wf_best_habit f = Some (h_name h)
                \<and> (\<forall>x \<in> set pre. habit_streak example_db 739049 x < wf_best_streak f)
                \<and> streak_line (wf_best_habit f) (wf_best_streak f)
                    = ''Your best streak is '' @ [CHR 0x27] @ ''run'' @ [CHR 0x27]
                      @ '' at 3 days '' @ [CHR 0xE2, CHR 0x80, CHR 0x94]
                      @ '' keep it going!''))"
proof -
  have s: "map (habit_streak example_db 739049) (active_habits example_db 1) = [3, 3]"
    by code_simp
  then have nz: "\<not> (\<forall>h \<in> set (active_habits example_db 1). habit_streak example_db 739049 h = 0)"
    by (auto simp: active_habits_def example_db_def)
  define u where "u = \<lparr>u_id = 1, u_name = ''Ann'', u_email = ''ann@example.org''\<rparr>"
  have uid: "u_id u = 1" by (simp add: u_def)
  from best_habit_by_streak [of 739049 example_db u]
  obtain f where f: "weekly_figures 739049 example_db u = Inr f"
    and b: "if \<forall>h \<in> set (active_habits example_db (u_id u)). habit_streak example_db 739049 h = 0
         then wf_best_habit f = None \<and> wf_best_streak f = 0
              \<and> streak_line (wf_best_habit f) (wf_best_streak f) = start_a_habit
              \<and> streak_line (wf_best_habit f) (wf_best_streak f)
                  = ''Start a habit this week to build your first streak.''
         else \<exists>pre h post. active_habits example_db (u_id u) = pre @ h # post
                \<and> wf_best_habit f = Some (h_name h)
                \<and> wf_best_streak f = habit_streak example_db 739049 h
                \<and> (\<forall>x \<in> set pre. habit_streak example_db 739049 x < wf_best_streak f)
                \<and> (\<forall>x \<in> set (active_habits example_db (u_id u)).
                      habit_streak example_db 739049 x \<le> wf_best_streak f)
                \<and> (h_name h \<noteq> [] \<longrightarrow>
                      streak_line (wf_best_habit f) (wf_best_streak f)
                      = ''Your best streak is '' @ [CHR 0x27] @ h_name h @ [CHR 0x27]
                        @ '' at '' @ str_int (int (habit_streak example_db 739049 h))
                        @ '' days '' @ [CHR 0xE2, CHR 0x80, CHR 0x94] @ '' keep it going!'')
                \<and> (h_name h = [] \<longrightarrow>
                      streak_line (wf_best_habit f) (wf_best_streak f)
                      = ''Start a habit this week to build your first streak.'')"
    by blast
  from b obtain pre h post where p: "active_habits example_db 1 = pre @ h # post"
      "wf_best_habit f = Some (h_name h)"
      "wf_best_streak f = habit_streak example_db 739049 h"
      "\<forall>x \<in> set pre. habit_streak example_db 739049 x < wf_best_streak f"
      "h_name h \<noteq> [] \<longrightarrow>
         streak_line (wf_best_habit f) (wf_best_streak f)
         = ''Your best streak is '' @ [CHR 0x27] @ h_name h @ [CHR 0x27]
           @ '' at '' @ str_int (int (habit_streak example_db 739049 h))
           @ '' days '' @ [CHR 0xE2, CHR 0x80, CHR 0x94] @ '' keep it going!''"
    unfolding uid if_not_P [OF nz] by blast
  from f example_figures have v: "wf_best_habit f = Some ''run''" "wf_best_streak f = 3"
    by (auto simp: u_def)
  from v p(2,3) have hn: "h_name h = ''run''" "habit_streak example_db 739049 h = 3"
    by simp_all
  have three: "str_int 3 = ''3''" by code_simp
  from p(5) hn three
  have line: "streak_line (wf_best_habit f) (wf_best_streak f)
                    = ''Your best streak is '' @ [CHR 0x27] @ ''run'' @ [CHR 0x27]
                      @ '' at 3 days '' @ [CHR 0xE2, CHR 0x80, CHR 0x94]
                      @ '' keep it going!''"
    by simp
  from p(1,2,4) line
  have e: "\<exists>pre h post. active_habits example_db 1 = pre @ h # post
                \<and> wf_best_habit f = Some (h_name h)
                \<and> (\<forall>x \<in> set pre. habit_streak example_db 739049 x < wf_best_streak f)
                \<and> streak_line (wf_best_habit f) (wf_best_streak f)
                    = ''Your best streak is '' @ [CHR 0x27] @ ''run'' @ [CHR 0x27]
                      @ '' at 3 days '' @ [CHR 0xE2, CHR 0x80, CHR 0x94]
                      @ '' keep it going!''"
    by blast
  with f v s nz show ?thesis unfolding u_def by blast
qed

section \<open>Saving the weekly report\<close>







lemma generate_weekly_report_cases:
  assumes f: "weekly_figures today d u = Inr f"
  shows "generate_weekly_report today d u
     = Inr (\<lparr>rr_report = report_text u f, rr_score = wf_weekly_score f\<rparr>,
            d\<lparr>weekly_reports :=
               (case find (same_week_report (u_id u) (week_start_of today)) (weekly_reports d) of
                  Some existing \<Rightarrow>
                    update_first (same_week_report (u_id u) (week_start_of today))
                      (\<lambda>r. r\<lparr>r_report := report_text u f, r_score := wf_weekly_score f\<rparr>)
                      (weekly_reports d)
                | None \<Rightarrow>
                    weekly_reports d
                    @ [\<lparr>r_id = next_id (map r_id (weekly_reports d)), r_user_id = u_id u,
                        r_week_start = week_start_of today, r_week_end = week_end_of today,
                        r_report = report_text u f, r_score = wf_weekly_score f\<rparr>])\<rparr>)"
  using weekly_figures_window [OF f]
  by (simp add: generate_weekly_report_def f Let_def split: option.splits)

text \<open>
  The upsert keeps the table at no more than one report for each user and week_start.
\<close>

lemma filter_update_first_length:
  "(\<And>x. Q (f x) = Q x) \<Longrightarrow> length (filter Q (update_first P f xs)) = length (filter Q xs)"
  by (induction xs) auto

lemma generate_weekly_report_keeps_single:
  assumes inv: "\<forall>user_id week_start.
                  length (filter (same_week_report user_id week_start) (weekly_reports d)) \<le> 1"
    and gen: "generate_weekly_report today d u = Inr (res, d')"
  shows "\<forall>user_id week_start.
           length (filter (same_week_report user_id week_start) (weekly_reports d')) \<le> 1"
proof (intro allI)
  fix user_id week_start
  obtain f where f: "weekly_figures today d u = Inr f"
    using weekly_figures_total by blast
  let ?P = "same_week_report (u_id u) (week_start_of today)"
  let ?Q = "same_week_report user_id week_start"
  let ?upd = "\<lambda>r. r\<lparr>r_report := report_text u f, r_score := wf_weekly_score f\<rparr>"
  from inv have q: "length (filter ?Q (weekly_reports d)) \<le> 1" by blast
  show "length (filter ?Q (weekly_reports d')) \<le> 1"
  proof (cases "find ?P (weekly_reports d)")
    case (Some e)
    have "length (filter ?Q (update_first ?P ?upd (weekly_reports d)))
          = length (filter ?Q (weekly_reports d))"
      by (rule filter_update_first_length) (simp add: same_week_report_def)
    with gen Some q show ?thesis
      unfolding generate_weekly_report_cases [OF f] by auto
  next
    case None
    then have none: "filter ?P (weekly_reports d) = []"
      by (simp add: find_None_iff filter_empty_conv)
    show ?thesis
    proof (cases "user_id = u_id u \<and> week_start = week_start_of today")
      case True
      with gen None none show ?thesis
        unfolding generate_weekly_report_cases [OF f] by auto
    next
      case False
      then have "\<not> ?Q \<lparr>r_id = next_id (map r_id (weekly_reports d)), r_user_id = u_id u,
                        r_week_start = week_start_of today, r_week_end = week_end_of today,
                        r_report = report_text u f, r_score = wf_weekly_score f\<rparr>"
        by (auto simp: same_week_report_def)
      with gen None q show ?thesis
        unfolding generate_weekly_report_cases [OF f] by auto
    qed
  qed
qed



section \<open>Properties of the weekly batch job\<close>


lemma update_first_other:
  "(\<And>x. P x \<Longrightarrow> \<not> Q x) \<Longrightarrow> (\<And>x. P x \<Longrightarrow> \<not> Q (f x))
     \<Longrightarrow> filter Q (update_first P f xs) = filter Q xs"
  by (induction xs) auto



lemma generate_weekly_report_other_user:
  assumes "generate_weekly_report today d u = Inr (res, d')" and "u_id u \<noteq> other"
  shows "filter (\<lambda>r. r_user_id r = other) (weekly_reports d')
         = filter (\<lambda>r. r_user_id r = other) (weekly_reports d)"
proof -
  obtain f where f: "weekly_figures today d u = Inr f"
    using weekly_figures_total by blast
  let ?P = "same_week_report (u_id u) (week_start_of today)"
  let ?upd = "\<lambda>r. r\<lparr>r_report := report_text u f, r_score := wf_weekly_score f\<rparr>"
  have "filter (\<lambda>r. r_user_id r = other) (update_first ?P ?upd (weekly_reports d))
        = filter (\<lambda>r. r_user_id r = other) (weekly_reports d)"
    using assms(2) by (intro update_first_other) (auto simp: same_week_report_def)
  with assms show ?thesis
    unfolding generate_weekly_report_cases [OF f]
    by (auto split: option.splits)
qed

lemma reports_loop_completes:
  "(\<And>d u. \<exists>res d'. gen d u = Inr (res, d')) \<Longrightarrow> fst (reports_loop gen d us logged) = None"
proof (induction us arbitrary: d logged)
  case Nil
  then show ?case by simp
next
  case (Cons u us)
  from Cons.prems obtain res d' where "gen d u = Inr (res, d')" by blast
  with Cons.IH [OF Cons.prems] show ?case by simp
qed

text \<open>
  In the model \<open>generate_weekly_report\<close> never raises, so the job itself always
  completes and returns nothing; a failure has to come from the database or from a
  generator put in its place.
\<close>

lemma run_weekly_reports_returns_none: "fst (run_weekly_reports today d) = Inr ReturnsNone"
proof -
  have "fst (reports_loop (generate_weekly_report today) d (get_all_users d) [JobStarted]) = None"
    by (rule reports_loop_completes) (rule generate_weekly_report_total)
  then show ?thesis
    by (auto simp: run_weekly_reports_def run_weekly_reports_with_def Let_def
        split: prod.splits option.splits)
qed

text \<open>
  What the missing rollback costs: when the generation for the second of three users
  fails in the database, the handler raises, the job ends with PendingRollbackError
  after the report of the first user, nothing is logged for the second user or about
  the number of users, and the third user is never processed.
\<close>

lemma batch_aborts_after_database_failure:
  assumes us: "get_all_users d = [u1, u2, u3]"
    and bad: "u_id u2 = bad" "u_id u1 \<noteq> bad"
    and diff: "u_id u1 \<noteq> u_id u3"
    and broken: "breaks_session e"
  shows "\<exists>r1 d1. generate_weekly_report today d u1 = Inr (r1, d1)
         \<and> run_weekly_reports_with (failing_for bad e today) d
             = (Inl PendingRollbackError, d1,
                [JobStarted, ReportGenerated (u_email u1) (rr_score r1)])
         \<and> filter (\<lambda>r. r_user_id r = u_id u3) (weekly_reports d1)
             = filter (\<lambda>r. r_user_id r = u_id u3) (weekly_reports d)"
proof -
  obtain r1 d1 where g1: "generate_weekly_report today d u1 = Inr (r1, d1)"
    using generate_weekly_report_total by blast
  have run: "run_weekly_reports_with (failing_for bad e today) d
             = (Inl PendingRollbackError, d1,
                [JobStarted, ReportGenerated (u_email u1) (rr_score r1)])"
    using bad broken by (simp add: run_weekly_reports_with_def us failing_for_def g1)
  have "filter (\<lambda>r. r_user_id r = u_id u3) (weekly_reports d1)
        = filter (\<lambda>r. r_user_id r = u_id u3) (weekly_reports d)"
    using g1 diff by (rule generate_weekly_report_other_user)
  with g1 run show ?thesis by blast
qed




end
